theory Spec2Isabelle
  imports Complex_Main "HOL-Library.AList"
begin

section \<open>Numbers, strings and cells\<close>

text \<open>
  The page computes with JavaScript numbers. Every number that reaches the MRP arithmetic
  has passed \<open>toNumber\<close>, which replaces a non-finite value by 0, so the quantities are
  finite. They are modelled as exact rationals (every finite double is a rational);
  the rounding of IEEE arithmetic is not modelled. Where the source tests a number for
  being finite, the number is a \<open>num option\<close> and \<open>None\<close> stands for NaN and the
  infinities.
\<close>

type_synonym num = rat

text \<open>
  Strings are lists of 8-bit characters, read as the code units below 256 (Latin-1).
  \<open>isSpace\<close> is the white space of \<open>String.prototype.trim\<close> and of the regular
  expression class \<open>\s\<close> in that range; \<open>toLowerCase\<close> is the one of JavaScript there.
\<close>

definition isSpace :: "char \<Rightarrow> bool" where
  "isSpace c = (let n = (of_char c :: nat) in (9 \<le> n \<and> n \<le> 13) \<or> n = 32 \<or> n = 160)"

definition isDigit :: "char \<Rightarrow> bool" where
  "isDigit c = (let n = (of_char c :: nat) in 48 \<le> n \<and> n \<le> 57)"

definition trim :: "string \<Rightarrow> string" where
  "trim s = rev (dropWhile isSpace (rev (dropWhile isSpace s)))"

definition toLowerChar :: "char \<Rightarrow> char" where
  "toLowerChar c =
     (let n = (of_char c :: nat) in
      if (65 \<le> n \<and> n \<le> 90) \<or> (192 \<le> n \<and> n \<le> 222 \<and> n \<noteq> 215)
      then char_of (n + 32) else c)"

definition toLowerCase :: "string \<Rightarrow> string" where
  "toLowerCase s = map toLowerChar s"

text \<open>\<open>replaceAll(/\s+/g, ' ')\<close>: every maximal run of white space becomes one blank.
  The flag says that the previous character belonged to a run.\<close>

fun collapseSpaces :: "bool \<Rightarrow> string \<Rightarrow> string" where
  "collapseSpaces inRun [] = []"
| "collapseSpaces inRun (c # cs) =
     (if isSpace c then
        (if inRun then collapseSpaces True cs else CHR '' '' # collapseSpaces True cs)
      else c # collapseSpaces False cs)"

text \<open>\<open>replaceAll('_', ' ')\<close>.\<close>

definition underscoresToSpaces :: "string \<Rightarrow> string" where
  "underscoresToSpaces s = map (\<lambda>c. if c = CHR ''_'' then CHR '' '' else c) s"

fun startsWith :: "string \<Rightarrow> string \<Rightarrow> bool" where
  "startsWith s [] = True"
| "startsWith [] (q # qs) = False"
| "startsWith (c # cs) (q # qs) = (c = q \<and> startsWith cs qs)"

text \<open>\<open>s.includes(q)\<close>.\<close>

fun includesStr :: "string \<Rightarrow> string \<Rightarrow> bool" where
  "includesStr [] q = (q = [])"
| "includesStr (c # cs) q = (startsWith (c # cs) q \<or> includesStr cs q)"

text \<open>\<open>s.split(sep)\<close> for a separator of one character: never the empty list.\<close>

fun split :: "char \<Rightarrow> string \<Rightarrow> string list" where
  "split sep [] = [[]]"
| "split sep (c # cs) =
     (if c = sep then [] # split sep cs
      else (case split sep cs of [] \<Rightarrow> [[c]] | p # ps \<Rightarrow> (c # p) # ps))"

text \<open>Reading an array at an index: \<open>undefined\<close> outside of it.\<close>

definition nthOpt :: "'a list \<Rightarrow> int \<Rightarrow> 'a option" where
  "nthOpt xs i = (if 0 \<le> i \<and> i < int (length xs) then Some (xs ! nat i) else None)"

text \<open>\<open>/^\d{2}\.\d{4}$/.test(s)\<close>, the pattern of a period key \<open>WW.YYYY\<close>.\<close>

fun periodPattern :: "string \<Rightarrow> bool" where
  "periodPattern [a, b, c, d, e, f, g] =
     (isDigit a \<and> isDigit b \<and> c = CHR ''.'' \<and> isDigit d \<and> isDigit e \<and> isDigit f \<and> isDigit g)"
| "periodPattern s = False"

text \<open>The value of a string of decimal digits, and the decimal numeral of a number.\<close>

definition digitsValue :: "string \<Rightarrow> nat" where
  "digitsValue s = foldl (\<lambda>a c. 10 * a + (of_char c - 48)) 0 s"

function natToStr :: "nat \<Rightarrow> string" where
  "natToStr n = (if n < 10 then [char_of (48 + n)]
                 else natToStr (n div 10) @ [char_of (48 + n mod 10)])"
  by pat_completeness auto
termination
  by (relation "measure id") auto

definition intToStr :: "int \<Rightarrow> string" where
  "intToStr i = (if i < 0 then CHR ''-'' # natToStr (nat (- i)) else natToStr (nat i))"

text \<open>
  What the code leaves to the JavaScript runtime and its time zone is a parameter of the
  model: \<open>String(n)\<close> of a number, \<open>Number(s)\<close> of a string (\<open>None\<close> for NaN and the
  infinities), and the two ways in which calculatePoDate turns a cell of the week plan
  into a \<open>Date\<close>, here the number of its local calendar day counted from 1970-01-01
  (\<open>None\<close> for an invalid date): from a spreadsheet serial number
  (\<open>new Date(new Date(1899, 11, 30).getTime() + n * 86400000)\<close>) and from a string
  (\<open>new Date(s)\<close>).
\<close>

record jsPrims =
  numToStr :: "num \<Rightarrow> string"
  strToNum :: "string \<Rightarrow> num option"
  serialToDay :: "num \<Rightarrow> int option"
  parseDay :: "string \<Rightarrow> int option"

text \<open>
  \<open>Number(s)\<close>: the empty string is 0 and a string of up to 15 decimal digits is its
  value (exact in a double); the runtime decides the rest.
\<close>

definition jsNumber :: "jsPrims \<Rightarrow> string \<Rightarrow> num option" where
  "jsNumber js s =
     (if s = [] then Some 0
      else if length s \<le> 15 \<and> list_all isDigit s then Some (of_nat (digitsValue s))
      else strToNum js s)"

text \<open>A cell of a parsed sheet (\<open>unknown\<close> in the source): what \<open>sheet_to_json\<close> and
  \<open>JSON.parse\<close> produce inside a row. \<open>CBlank\<close> is \<open>null\<close> or \<open>undefined\<close>; a number
  cell is finite.\<close>

datatype cell = CStr string | CNum num | CBool bool | CBlank

type_synonym grid = "cell list list"

text \<open>\<open>row[i]\<close>, \<open>undefined\<close> outside of the row (also at the index -1 of a column that
  was not found).\<close>

definition cellAt :: "cell list \<Rightarrow> int \<Rightarrow> cell" where
  "cellAt row i = (case nthOpt row i of None \<Rightarrow> CBlank | Some c \<Rightarrow> c)"

text \<open>\<open>String(v ?? '')\<close>.\<close>

definition cellString :: "jsPrims \<Rightarrow> cell \<Rightarrow> string" where
  "cellString js v =
     (case v of CStr s \<Rightarrow> s | CNum n \<Rightarrow> numToStr js n
      | CBool b \<Rightarrow> (if b then ''true'' else ''false'') | CBlank \<Rightarrow> [])"

definition toNumber :: "jsPrims \<Rightarrow> cell \<Rightarrow> num" where
  "toNumber js v =
     (case v of CNum n \<Rightarrow> n
      | _ \<Rightarrow> (case jsNumber js (trim (cellString js v)) of Some n \<Rightarrow> n | None \<Rightarrow> 0))"

definition normalizeText :: "string \<Rightarrow> string" where
  "normalizeText s = underscoresToSpaces (collapseSpaces False (toLowerCase (trim s)))"

definition normalizeHeaderValue :: "jsPrims \<Rightarrow> cell \<Rightarrow> string" where
  "normalizeHeaderValue js v = normalizeText (cellString js v)"

text \<open>\<open>xs.findIndex(p)\<close>: the first index whose element satisfies \<open>p\<close>, or -1.\<close>

fun findIndex :: "('a \<Rightarrow> bool) \<Rightarrow> 'a list \<Rightarrow> int" where
  "findIndex p [] = - 1"
| "findIndex p (x # xs) =
     (if p x then 0 else (let i = findIndex p xs in if i < 0 then - 1 else i + 1))"

text \<open>\<open>String(h ?? '').toLowerCase()\<close>, the header text that the lookup builders search.\<close>

definition lowerHeader :: "jsPrims \<Rightarrow> cell \<Rightarrow> string" where
  "lowerHeader js h = toLowerCase (cellString js h)"

section \<open>Sheet selection (scoreSheetByType, parseExcelArrayBuffer)\<close>

datatype docType = Bom | MaterialMaster | Idp | SupplierDetails | WeekPlan

text \<open>The closures \<open>has\<close> and \<open>hasRegex\<close> of scoreSheetByType over the scanned rows;
  the only regular expression passed to \<open>hasRegex\<close> is the period pattern.\<close>

definition has :: "jsPrims \<Rightarrow> grid \<Rightarrow> string \<Rightarrow> bool" where
  "has js rows q = list_ex (\<lambda>r. list_ex (\<lambda>c. includesStr (normalizeHeaderValue js c) q) r) rows"

definition hasRegex :: "jsPrims \<Rightarrow> grid \<Rightarrow> bool" where
  "hasRegex js rows = list_ex (\<lambda>r. list_ex (\<lambda>c. periodPattern (trim (cellString js c))) r) rows"

text \<open>\<open>if (b) s += w\<close>.\<close>

definition addIf :: "bool \<Rightarrow> int \<Rightarrow> int \<Rightarrow> int" where
  "addIf b w s = (if b then s + w else s)"

definition scoreSheetByType :: "jsPrims \<Rightarrow> docType \<Rightarrow> string \<Rightarrow> grid \<Rightarrow> int" where
  "scoreSheetByType js type sheetNm aoa =
     (let rows = take 15 aoa; sn = normalizeText sheetNm in
      case type of
        Bom \<Rightarrow>
          addIf (has js rows ''uom'') 1
            (addIf (has js rows ''quantity'' \<or> has js rows ''per kit'') 1
              (addIf (has js rows ''child'') 3
                (addIf (has js rows ''derived'') 2
                  (addIf (includesStr sn ''bom'') 5 0))))
      | MaterialMaster \<Rightarrow>
          addIf (has js rows ''pending po'') 1
            (addIf (has js rows ''instock'' \<or> has js rows ''in stock'') 1
              (addIf (has js rows ''reorder'') 2
                (addIf (has js rows ''moq'') 2
                  (addIf (has js rows ''mpq'') 2
                    (addIf (includesStr sn ''master'') 2
                      (addIf (includesStr sn ''material'') 3 0))))))
      | SupplierDetails \<Rightarrow>
          addIf (has js rows ''transport'') 1
            (addIf (has js rows ''lead-time'' \<or> has js rows ''lead time'') 2
              (addIf (has js rows ''vendor'') 2
                (addIf (includesStr sn ''vendor'') 2
                  (addIf (includesStr sn ''supplier'') 4 0))))
      | WeekPlan \<Rightarrow>
          addIf (has js rows ''end date'') 1
            (addIf (has js rows ''start date'') 2
              (addIf (has js rows ''week'') 2
                (addIf (includesStr sn ''plan'') 2
                  (addIf (includesStr sn ''week'') 4 0))))
      | Idp \<Rightarrow>
          addIf (hasRegex js rows) 4
            (addIf (has js rows ''derived'') 2
              (addIf (includesStr sn ''idp'') 4
                (addIf (includesStr sn ''plan'') 2
                  (addIf (includesStr sn ''production'') 2 0)))))"

record parsedExcel =
  sheetName :: string
  jsonData :: grid

text \<open>
  The workbook as \<open>XLSX.read\<close> returns it: the sheet names in workbook order and the
  sheets by name, each sheet given by the array of rows that \<open>sheet_to_json\<close> makes of
  it. A name without a sheet is skipped by the loop (\<open>if (!ws) return\<close>).
\<close>

record workbook =
  SheetNames :: "string list"
  Sheets :: "string \<rightharpoonup> grid"

text \<open>The three variables \<open>bestSheetName\<close>, \<open>bestScore\<close>, \<open>bestJsonData\<close> and one
  iteration of \<open>workbook.SheetNames.forEach\<close>.\<close>

type_synonym best = "string \<times> int \<times> grid option"

definition considerSheet :: "jsPrims \<Rightarrow> workbook \<Rightarrow> docType \<Rightarrow> best \<Rightarrow> string \<Rightarrow> best" where
  "considerSheet js wb type b sn =
     (case Sheets wb sn of
        None \<Rightarrow> b
      | Some aoa \<Rightarrow>
          (let score = scoreSheetByType js type sn aoa in
           if score > fst (snd b) then (sn, score, Some aoa) else b))"

definition initialBest :: "workbook \<Rightarrow> best" where
  "initialBest wb = ((case SheetNames wb of [] \<Rightarrow> ''Sheet1'' | n # _ \<Rightarrow> n), - 1, None)"

definition parseExcelArrayBuffer :: "jsPrims \<Rightarrow> workbook \<Rightarrow> docType \<Rightarrow> parsedExcel" where
  "parseExcelArrayBuffer js wb type =
     (let (bestSheetName, bestScore, bestJsonData) =
            foldl (considerSheet js wb type) (initialBest wb) (SheetNames wb)
      in \<lparr>sheetName = bestSheetName,
          jsonData = (case bestJsonData of None \<Rightarrow> [] | Some d \<Rightarrow> d)\<rparr>)"

text \<open>For the statements about the selection: the sheets that the loop scores, in
  workbook order, each with its name and rows.\<close>

definition scoredSheets :: "workbook \<Rightarrow> (string \<times> grid) list" where
  "scoredSheets wb =
     concat (map (\<lambda>sn. case Sheets wb sn of None \<Rightarrow> [] | Some aoa \<Rightarrow> [(sn, aoa)]) (SheetNames wb))"

section \<open>Header row and column roles (findHeaderRowIndex, findColumnIndex)\<close>

definition findHeaderRowIndex :: "grid \<Rightarrow> (cell list \<Rightarrow> bool) list \<Rightarrow> nat \<Rightarrow> int" where
  "findHeaderRowIndex rows matchers maxScan =
     (let scan = take (min maxScan (length rows)) rows;
          i = findIndex (\<lambda>row. list_all (\<lambda>m. m row) matchers) scan
      in if i < 0 then 0 else i)"

definition findColumnIndex :: "jsPrims \<Rightarrow> cell list \<Rightarrow> (string \<Rightarrow> bool) list \<Rightarrow> int" where
  "findColumnIndex js headers predicates =
     findIndex (\<lambda>v. let h = normalizeHeaderValue js v in h \<noteq> [] \<and> list_ex (\<lambda>p. p h) predicates)
       headers"

text \<open>The matcher lists that calculateMrpDataInternal passes for the child part column
  and the unit column of the BOM, and its two row matchers for the header row.\<close>

definition childPartPredicates :: "(string \<Rightarrow> bool) list" where
  "childPartPredicates =
     [\<lambda>h. includesStr h ''child part'', \<lambda>h. h = ''child'', \<lambda>h. h = ''childpart'',
      \<lambda>h. includesStr h ''childpart'', \<lambda>h. includesStr h ''component'',
      \<lambda>h. includesStr h ''comp part'']"

definition uomPredicates :: "(string \<Rightarrow> bool) list" where
  "uomPredicates = [\<lambda>h. h = ''uom'', \<lambda>h. includesStr h '' uom'', \<lambda>h. includesStr h ''unit'']"

definition bomHeaderMatchers :: "jsPrims \<Rightarrow> (cell list \<Rightarrow> bool) list" where
  "bomHeaderMatchers js =
     [\<lambda>row. list_ex (\<lambda>c. includesStr (normalizeHeaderValue js c) ''child'') row,
      \<lambda>row. list_ex (\<lambda>c. includesStr (normalizeHeaderValue js c) ''derived'') row]"

section \<open>Lookup builders\<close>

text \<open>The entry of the material master map.\<close>

record mmInfo =
  mpq :: num
  moq :: num
  reorder :: num
  instock :: num
  pendingPo :: num

definition buildMaterialMasterMap :: "jsPrims \<Rightarrow> cell list \<Rightarrow> grid \<Rightarrow> (string \<rightharpoonup> mmInfo)" where
  "buildMaterialMasterMap js headers rows =
     (let mpqIdx = findIndex (\<lambda>h. includesStr (lowerHeader js h) ''mpq'') headers;
          moqIdx = findIndex (\<lambda>h. includesStr (lowerHeader js h) ''moq'') headers;
          reorderIdx = findIndex (\<lambda>h. includesStr (lowerHeader js h) ''reorder'') headers;
          instockIdx = findIndex (\<lambda>h. includesStr (lowerHeader js h) ''instock''
                                      \<or> includesStr (lowerHeader js h) ''in stock'') headers;
          pendingPoIdx = findIndex (\<lambda>h. includesStr (lowerHeader js h) ''pending po''
                                      \<or> includesStr (lowerHeader js h) ''pending_po'') headers
      in foldl (\<lambda>m row.
                  (let material = trim (cellString js (cellAt row 0)) in
                   if material = [] then m
                   else m(material \<mapsto>
                          \<lparr>mpq = toNumber js (cellAt row mpqIdx),
                           moq = toNumber js (cellAt row moqIdx),
                           reorder = toNumber js (cellAt row reorderIdx),
                           instock = toNumber js (cellAt row instockIdx),
                           pendingPo = toNumber js (cellAt row pendingPoIdx)\<rparr>)))
           Map.empty rows)"

text \<open>The entry of the supplier details map, and what one data row of the supplier sheet
  gives: the material code (the key) and the entry.\<close>

record sdInfo =
  vendor :: string
  vendorLeadTime :: num
  transportTime :: num
  totalLeadTime :: num

definition supplierKey :: "jsPrims \<Rightarrow> cell list \<Rightarrow> string" where
  "supplierKey js row = trim (cellString js (cellAt row 0))"

definition supplierEntry :: "jsPrims \<Rightarrow> int \<Rightarrow> int \<Rightarrow> cell list \<Rightarrow> sdInfo" where
  "supplierEntry js vendorLeadTimeIdx transportTimeIdx row =
     (let vlt = toNumber js (cellAt row vendorLeadTimeIdx);
          tt = toNumber js (cellAt row transportTimeIdx)
      in \<lparr>vendor = trim (cellString js (cellAt row 1)), vendorLeadTime = vlt,
          transportTime = tt, totalLeadTime = vlt + tt\<rparr>)"

text \<open>One iteration of \<open>rows.forEach\<close> in buildSupplierDetailsMap.\<close>

definition supplierStep ::
  "jsPrims \<Rightarrow> int \<Rightarrow> int \<Rightarrow> (string \<rightharpoonup> sdInfo) \<Rightarrow> cell list \<Rightarrow> (string \<rightharpoonup> sdInfo)" where
  "supplierStep js vIdx tIdx m row =
     (let material = supplierKey js row in
      if material = [] then m
      else (let e = supplierEntry js vIdx tIdx row in
            case m material of
              None \<Rightarrow> m(material \<mapsto> e)
            | Some old \<Rightarrow> if totalLeadTime old > totalLeadTime e then m(material \<mapsto> e) else m))"

definition vendorLeadTimeIdx :: "jsPrims \<Rightarrow> cell list \<Rightarrow> int" where
  "vendorLeadTimeIdx js headers =
     findIndex (\<lambda>h. includesStr (lowerHeader js h) ''vendor lead-time'') headers"

definition transportTimeIdx :: "jsPrims \<Rightarrow> cell list \<Rightarrow> int" where
  "transportTimeIdx js headers =
     findIndex (\<lambda>h. includesStr (lowerHeader js h) ''transport time'') headers"

definition buildSupplierDetailsMap :: "jsPrims \<Rightarrow> cell list \<Rightarrow> grid \<Rightarrow> (string \<rightharpoonup> sdInfo)" where
  "buildSupplierDetailsMap js headers rows =
     foldl (supplierStep js (vendorLeadTimeIdx js headers) (transportTimeIdx js headers))
       Map.empty rows"

text \<open>For the statements about the map: the entries that the data rows with material
  code \<open>k\<close> give, in row order.\<close>

definition supplierEntriesFor :: "jsPrims \<Rightarrow> cell list \<Rightarrow> grid \<Rightarrow> string \<Rightarrow> sdInfo list" where
  "supplierEntriesFor js headers rows k =
     map (supplierEntry js (vendorLeadTimeIdx js headers) (transportTimeIdx js headers))
       (filter (\<lambda>row. supplierKey js row = k) rows)"

section \<open>Demand explosion (buildProductionDemandMap)\<close>

text \<open>
  A JavaScript \<open>Map\<close> iterates in insertion order, and the period loop depends on that
  order: the demand map is an association list, \<open>map.set\<close> is \<open>AList.update\<close> (a new key
  goes to the end, a known key keeps its place) and \<open>map.get\<close> is \<open>map_of\<close>.
\<close>

type_synonym weekMap = "(string \<times> num) list"
type_synonym demandMap = "(string \<times> weekMap) list"

text \<open>The body of \<open>bomItems.forEach\<close>: add \<open>demandQty\<close> to the child's week.\<close>

definition addDemand :: "demandMap \<Rightarrow> string \<Rightarrow> string \<Rightarrow> num \<Rightarrow> demandMap" where
  "addDemand dm childPart week demandQty =
     (let weekMap = (case map_of dm childPart of None \<Rightarrow> [] | Some wm \<Rightarrow> wm);
          old = (case map_of weekMap week of None \<Rightarrow> 0 | Some v \<Rightarrow> v)
      in AList.update childPart (AList.update week (old + demandQty) weekMap) dm)"

text \<open>The three column indices read from the BOM header and the one read from the
  production plan header.\<close>

definition bomDerivedMaterialIdx :: "jsPrims \<Rightarrow> cell list \<Rightarrow> int" where
  "bomDerivedMaterialIdx js bomHeaders =
     findIndex (\<lambda>h. includesStr (lowerHeader js h) ''derived material'') bomHeaders"

definition bomChildPartIdx :: "jsPrims \<Rightarrow> cell list \<Rightarrow> int" where
  "bomChildPartIdx js bomHeaders =
     findIndex (\<lambda>h. includesStr (lowerHeader js h) ''child part'') bomHeaders"

definition bomQtyIdx :: "jsPrims \<Rightarrow> cell list \<Rightarrow> int" where
  "bomQtyIdx js bomHeaders =
     findIndex (\<lambda>h. includesStr (lowerHeader js h) ''quantity''
                   \<or> includesStr (lowerHeader js h) ''per kit'') bomHeaders"

definition idpDerivedMaterialIdx :: "jsPrims \<Rightarrow> cell list \<Rightarrow> int" where
  "idpDerivedMaterialIdx js idpHeaders =
     findIndex (\<lambda>h. includesStr (lowerHeader js h) ''derived material'') idpHeaders"

text \<open>\<open>weekCols\<close>: the period columns of the production plan header that are selected,
  each with its column index, from left to right.\<close>

definition weekCols :: "jsPrims \<Rightarrow> cell list \<Rightarrow> string list \<Rightarrow> (int \<times> string) list" where
  "weekCols js idpHeaders selectedWeeks =
     concat (map (\<lambda>(idx, header).
                    (let s = trim (cellString js header) in
                     if s \<noteq> [] \<and> periodPattern s \<and> s \<in> set selectedWeeks
                     then [(int idx, s)] else []))
                 (enumerate 0 idpHeaders))"

text \<open>The three values read from a BOM row, and \<open>bomLookup\<close>: the edges by parent, in
  row order.\<close>

definition bomParent :: "jsPrims \<Rightarrow> cell list \<Rightarrow> cell list \<Rightarrow> string" where
  "bomParent js bomHeaders row = trim (cellString js (cellAt row (bomDerivedMaterialIdx js bomHeaders)))"

definition bomChild :: "jsPrims \<Rightarrow> cell list \<Rightarrow> cell list \<Rightarrow> string" where
  "bomChild js bomHeaders row = trim (cellString js (cellAt row (bomChildPartIdx js bomHeaders)))"

definition bomQty :: "jsPrims \<Rightarrow> cell list \<Rightarrow> cell list \<Rightarrow> num" where
  "bomQty js bomHeaders row = toNumber js (cellAt row (bomQtyIdx js bomHeaders))"

definition bomLookupStep ::
  "jsPrims \<Rightarrow> cell list \<Rightarrow> (string \<rightharpoonup> (string \<times> num) list) \<Rightarrow> cell list
     \<Rightarrow> (string \<rightharpoonup> (string \<times> num) list)" where
  "bomLookupStep js bomHeaders m row =
     (let derivedMaterial = bomParent js bomHeaders row;
          childPart = bomChild js bomHeaders row;
          qty = bomQty js bomHeaders row
      in if derivedMaterial = [] \<or> childPart = [] \<or> qty \<le> 0 then m
         else m(derivedMaterial \<mapsto>
                  (case m derivedMaterial of None \<Rightarrow> [] | Some arr \<Rightarrow> arr) @ [(childPart, qty)]))"

definition bomLookup :: "jsPrims \<Rightarrow> cell list \<Rightarrow> grid \<Rightarrow> (string \<rightharpoonup> (string \<times> num) list)" where
  "bomLookup js bomHeaders bomRows = foldl (bomLookupStep js bomHeaders) Map.empty bomRows"

text \<open>The three nested loops, innermost first.\<close>

definition itemsLoop :: "demandMap \<Rightarrow> string \<Rightarrow> num \<Rightarrow> (string \<times> num) list \<Rightarrow> demandMap" where
  "itemsLoop dm week productionQty bomItems =
     foldl (\<lambda>d (childPart, quantity). addDemand d childPart week (productionQty * quantity))
       dm bomItems"

definition weeksLoop ::
  "jsPrims \<Rightarrow> demandMap \<Rightarrow> cell list \<Rightarrow> (string \<times> num) list \<Rightarrow> (int \<times> string) list \<Rightarrow> demandMap" where
  "weeksLoop js dm row bomItems wcs =
     foldl (\<lambda>d (idx, week).
              (let productionQty = toNumber js (cellAt row idx) in
               if productionQty \<le> 0 then d else itemsLoop d week productionQty bomItems))
       dm wcs"

definition idpParent :: "jsPrims \<Rightarrow> cell list \<Rightarrow> cell list \<Rightarrow> string" where
  "idpParent js idpHeaders row =
     trim (cellString js (cellAt row (idpDerivedMaterialIdx js idpHeaders)))"

text \<open>The body of \<open>idpRows.forEach\<close>.\<close>

definition planRowStep ::
  "jsPrims \<Rightarrow> cell list \<Rightarrow> (string \<rightharpoonup> (string \<times> num) list) \<Rightarrow> (int \<times> string) list
     \<Rightarrow> demandMap \<Rightarrow> cell list \<Rightarrow> demandMap" where
  "planRowStep js idpHeaders lookup wcs dm row =
     (let derivedMaterial = idpParent js idpHeaders row in
      if derivedMaterial = [] then dm
      else weeksLoop js dm row
             (case lookup derivedMaterial of None \<Rightarrow> [] | Some items \<Rightarrow> items) wcs)"

definition buildProductionDemandMap ::
  "jsPrims \<Rightarrow> cell list \<Rightarrow> grid \<Rightarrow> cell list \<Rightarrow> grid \<Rightarrow> string list \<Rightarrow> demandMap" where
  "buildProductionDemandMap js idpHeaders idpRows bomHeaders bomRows selectedWeeks =
     foldl (planRowStep js idpHeaders (bomLookup js bomHeaders bomRows)
              (weekCols js idpHeaders selectedWeeks))
       [] idpRows"




text \<open>For the statements about the demand map: every week map in it has distinct keys,
  all of them in \<open>S\<close>.\<close>

definition weeksWithin :: "string set \<Rightarrow> demandMap \<Rightarrow> bool" where
  "weeksWithin S dm = (\<forall>(c, wm) \<in> set dm. distinct (map fst wm) \<and> set (map fst wm) \<subseteq> S)"

section \<open>Netting and lot sizing (the period loop of calculateMrpDataInternal)\<close>

text \<open>\<open>const excessQty = (mmInfo.instock || 0) + (mmInfo.pendingPo || 0)\<close>; on a finite
  number \<open>x || 0\<close> is \<open>x\<close>.\<close>

definition excessQty :: "mmInfo \<Rightarrow> num" where
  "excessQty mm = instock mm + pendingPo mm"

text \<open>
  Lines 638 to 648: from the running \<open>remainingExcess\<close> and the period's \<open>qty\<close>
  (here \<open>qty > 0\<close>) to the pair (adjustedDemand, remainingExcess).
\<close>

definition netExcess :: "num \<Rightarrow> num \<Rightarrow> num \<times> num" where
  "netExcess remainingExcess qty =
     (if remainingExcess > 0 then
        (if remainingExcess \<ge> qty then (0, remainingExcess - qty)
         else (qty - remainingExcess, 0))
      else (qty, remainingExcess))"

text \<open>Lines 650 to 660: \<open>requiredQty\<close> starts at 0 and is set when adjustedDemand > 0.\<close>

definition lotSize :: "mmInfo \<Rightarrow> num \<Rightarrow> num" where
  "lotSize mm adjustedDemand =
     (if adjustedDemand > 0 then
        (if reorder mm > 0 then reorder mm + adjustedDemand
         else if moq mm > adjustedDemand then moq mm
         else if mpq mm > 0 then of_int \<lceil>adjustedDemand / mpq mm\<rceil> * mpq mm
         else adjustedDemand)
      else 0)"

text \<open>
  One iteration of \<open>demandByWeek.forEach\<close>, recorded with the values of its local
  variables: the week, its gross demand, \<open>remainingExcess\<close> before and after the
  iteration, \<open>adjustedDemand\<close> (declared only inside \<open>if (qty > 0)\<close>) and \<open>requiredQty\<close>.
\<close>

record periodStep =
  psWeek :: string
  psQty :: num
  psBefore :: num
  psAdjusted :: "num option"
  psRequired :: num
  psAfter :: num

fun walkPeriods :: "mmInfo \<Rightarrow> num \<Rightarrow> (string \<times> num) list \<Rightarrow> periodStep list" where
  "walkPeriods mm remainingExcess [] = []"
| "walkPeriods mm remainingExcess ((week, qty) # rest) =
     (if qty > 0 then
        (let (adjustedDemand, remaining') = netExcess remainingExcess qty in
           \<lparr>psWeek = week, psQty = qty, psBefore = remainingExcess,
            psAdjusted = Some adjustedDemand, psRequired = lotSize mm adjustedDemand,
            psAfter = remaining'\<rparr> # walkPeriods mm remaining' rest)
      else
        \<lparr>psWeek = week, psQty = qty, psBefore = remainingExcess,
         psAdjusted = None, psRequired = 0, psAfter = remainingExcess\<rparr>
          # walkPeriods mm remainingExcess rest)"

section \<open>Dates (formatPoDate, calculatePoDate)\<close>

text \<open>
  A \<open>Date\<close> is used by the page through its local calendar fields only
  (\<open>new Date(y, m, d)\<close>, \<open>getDate\<close>, \<open>setDate\<close>, \<open>getMonth\<close>, \<open>getFullYear\<close>), so it is
  the number of its local calendar day, counted from 1970-01-01, and \<open>None\<close> is the
  invalid date. The calendar follows the definitions of the language standard:
  \<open>DaysInYear\<close>, \<open>DayFromYear\<close>, \<open>YearFromTime\<close>, \<open>MonthFromTime\<close>, \<open>DateFromTime\<close>,
  \<open>MakeDay\<close> (for a month index below 12) and \<open>TimeClip\<close>, whose bound of 100,000,000
  days is applied to the local day (the offset of the time zone is not modelled).
\<close>

type_synonym date = "int option"

definition leapYear :: "int \<Rightarrow> bool" where
  "leapYear y = (y mod 4 = 0 \<and> (y mod 100 \<noteq> 0 \<or> y mod 400 = 0))"

definition daysInYear :: "int \<Rightarrow> int" where
  "daysInYear y = (if leapYear y then 366 else 365)"

definition dayFromYear :: "int \<Rightarrow> int" where
  "dayFromYear y = 365 * (y - 1970) + (y - 1969) div 4 - (y - 1901) div 100 + (y - 1601) div 400"

text \<open>From a year and a day offset relative to its first day to the year that holds
  the day and the day's offset within it.\<close>

function yearWalk :: "int \<Rightarrow> int \<Rightarrow> int \<times> int" where
  "yearWalk y n =
     (if n < 0 then yearWalk (y - 1) (n + daysInYear (y - 1))
      else if n \<ge> daysInYear y then yearWalk (y + 1) (n - daysInYear y)
      else (y, n))"
  by pat_completeness auto
termination
  by (relation "measure (\<lambda>(y, n). if n < 0 then nat (- n) + 366 else nat n)")
     (auto simp: daysInYear_def split: if_splits)

definition monthLengths :: "bool \<Rightarrow> int list" where
  "monthLengths leap = [31, if leap then 29 else 28, 31, 30, 31, 30, 31, 31, 30, 31, 30, 31]"

fun monthWalk :: "int list \<Rightarrow> nat \<Rightarrow> int \<Rightarrow> nat \<times> int" where
  "monthWalk [] m n = (m, n)"
| "monthWalk (l # ls) m n = (if n < l then (m, n) else monthWalk ls (Suc m) (n - l))"

text \<open>Year, month index (from 0) and day of the month (from 1) of a day number.\<close>

definition civil :: "int \<Rightarrow> int \<times> nat \<times> int" where
  "civil z =
     (let y0 = 1970 + z div 366;
          (y, dayInYear) = yearWalk y0 (z - dayFromYear y0);
          (m, d) = monthWalk (monthLengths (leapYear y)) 0 dayInYear
      in (y, m, d + 1))"

definition makeDay :: "int \<Rightarrow> nat \<Rightarrow> int \<Rightarrow> int" where
  "makeDay y m dt = dayFromYear y + sum_list (take m (monthLengths (leapYear y))) + dt - 1"

definition timeClip :: "int \<Rightarrow> date" where
  "timeClip z = (if \<bar>z\<bar> \<le> 100000000 then Some z else None)"

text \<open>\<open>ToIntegerOrInfinity\<close> of a finite number: rounding towards zero.\<close>

definition toInteger :: "num \<Rightarrow> int" where
  "toInteger x = (if x \<ge> 0 then \<lfloor>x\<rfloor> else \<lceil>x\<rceil>)"

text \<open>\<open>new Date(year, m, d)\<close>: a year from 0 to 99 means 1900 + year.\<close>

definition fullYear :: "int \<Rightarrow> int" where
  "fullYear yi = (if 0 \<le> yi \<and> yi \<le> 99 then 1900 + yi else yi)"

definition newDate :: "num option \<Rightarrow> nat \<Rightarrow> int \<Rightarrow> date" where
  "newDate year m d =
     (case year of
        None \<Rightarrow> None
      | Some y \<Rightarrow> timeClip (makeDay (fullYear (toInteger y)) m d))"

definition getDate :: "date \<Rightarrow> num option" where
  "getDate d = (case d of None \<Rightarrow> None | Some z \<Rightarrow> Some (of_int (snd (snd (civil z)))))"

definition setDate :: "date \<Rightarrow> num option \<Rightarrow> date" where
  "setDate d v =
     (case d of
        None \<Rightarrow> None
      | Some z \<Rightarrow>
          (case v of
             None \<Rightarrow> None
           | Some x \<Rightarrow> (let (y, m, dd) = civil z in timeClip (makeDay y m (toInteger x)))))"

definition months :: "string list" where
  "months = [''Jan'', ''Feb'', ''Mar'', ''Apr'', ''May'', ''Jun'',
             ''Jul'', ''Aug'', ''Sep'', ''Oct'', ''Nov'', ''Dec'']"

text \<open>\<open>s.padStart(2, '0')\<close> and \<open>s.slice(-2)\<close>.\<close>

definition padStart2 :: "string \<Rightarrow> string" where
  "padStart2 s = replicate (2 - length s) CHR ''0'' @ s"

definition lastTwo :: "string \<Rightarrow> string" where
  "lastTwo s = drop (length s - 2) s"

text \<open>On the invalid date the three fields are NaN, \<open>undefined\<close> and NaN.\<close>

definition formatPoDate :: "date \<Rightarrow> string" where
  "formatPoDate d =
     (case d of
        None \<Rightarrow> ''NaN-undefined-aN''
      | Some z \<Rightarrow>
          (let (y, m, dd) = civil z
           in padStart2 (intToStr dd) @ ''-'' @ months ! m @ ''-'' @ lastTwo (intToStr y)))"

text \<open>The week plan lookup of calculatePoDate: the date it assigns to \<open>requiredDate\<close>,
  \<open>None\<close> when it leaves \<open>requiredDate\<close> null or invalid.\<close>

definition weekPlanDate :: "jsPrims \<Rightarrow> parsedExcel option \<Rightarrow> string \<Rightarrow> date" where
  "weekPlanDate js weekPlan weekStr =
     (case weekPlan of
        None \<Rightarrow> None
      | Some wp \<Rightarrow>
          (case jsonData wp of
             [] \<Rightarrow> None
           | headers # rows \<Rightarrow>
               (let weekNoIdx = findIndex (\<lambda>h. includesStr (lowerHeader js h) ''week'') headers;
                    startDateIdx =
                      findIndex (\<lambda>h. includesStr (lowerHeader js h) ''start date'') headers
                in case find (\<lambda>r. cellAt r weekNoIdx = CStr weekStr) rows of
                     None \<Rightarrow> None
                   | Some weekRow \<Rightarrow>
                       (case cellAt weekRow startDateIdx of
                          CBlank \<Rightarrow> None
                        | CNum n \<Rightarrow> serialToDay js n
                        | CStr s \<Rightarrow> (if s = [] then None else parseDay js s)
                        | CBool b \<Rightarrow> parseDay js (cellString js (CBool b))))))"

text \<open>The fallback of calculatePoDate: the first of January of the period's year, moved
  by \<open>setDate(getDate() + weekNum * 7)\<close>.\<close>

definition fallbackDate :: "jsPrims \<Rightarrow> string \<Rightarrow> date" where
  "fallbackDate js weekStr =
     (let parts = split CHR ''.'' weekStr;
          weekNum = (case nthOpt parts 0 of None \<Rightarrow> None | Some w \<Rightarrow> jsNumber js w);
          year = (case nthOpt parts 1 of None \<Rightarrow> None | Some y \<Rightarrow> jsNumber js y);
          requiredDate = newDate year 0 1
      in setDate requiredDate
           (case (getDate requiredDate, weekNum) of
              (Some d, Some w) \<Rightarrow> Some (d + w * 7)
            | _ \<Rightarrow> None))"

text \<open>
  calculatePoDate. \<open>leadTimeDays\<close> is \<open>None\<close> when it is not finite. No operation of
  the body throws on the values of this model, so the \<open>catch\<close> branch does not appear.
\<close>

definition calculatePoDate ::
  "jsPrims \<Rightarrow> string \<Rightarrow> num option \<Rightarrow> num \<Rightarrow> parsedExcel option \<Rightarrow> string" where
  "calculatePoDate js weekStr leadTimeDays mrpQty weekPlan =
     (if mrpQty \<le> 0 then ''-''
      else
        (let requiredDate =
               (case weekPlanDate js weekPlan weekStr of
                  Some d \<Rightarrow> Some d
                | None \<Rightarrow> fallbackDate js weekStr);
             lead = (case leadTimeDays of Some l \<Rightarrow> l | None \<Rightarrow> 0)
         in formatPoDate
              (setDate requiredDate
                 (case getDate requiredDate of Some d \<Rightarrow> Some (d - lead) | None \<Rightarrow> None))))"

section \<open>The MRP computation (calculateMrpDataInternal)\<close>

record mrpRow =
  material :: string
  uom :: string
  supplierCode :: string
  rowMpq :: num
  rowMoq :: num
  rowReorder :: num
  rowInstock :: num
  rowPendingPo :: num
  rowExcessQty :: num
  leadTime :: num
  weeklyDemand :: "(string \<times> num) list"
  weeklyMrpQty :: "(string \<times> num) list"
  weeklyPoDate :: "(string \<times> string) list"
  totalDemand :: num

text \<open>
  What the function shows with \<open>Swal.fire\<close>: an error with its title and text, the
  column error with the two values put into its message (the name of the selected sheet
  and the preview of the detected headers), and the success message with the numbers put
  into it (materials, materials with demand, start week, end week, selected weeks).
\<close>

datatype swal =
    SwalError string string
  | SwalColumnError string string
  | SwalSuccess nat nat num num nat

text \<open>The state of the page that the computation reads and writes, and the alerts
  fired so far.\<close>

record pageState =
  mrpCalculatedData :: "mrpRow list option"
  allWeekColumns :: "string list"
  weekColumns :: "string list"
  selectedYear :: string
  startWeek :: num
  endWeek :: num
  alerts :: "swal list"

record inputs =
  bom :: "parsedExcel option"
  materialMaster :: "parsedExcel option"
  idp :: "parsedExcel option"
  supplierDetails :: "parsedExcel option"
  weekPlan :: "parsedExcel option"

definition fire :: "pageState \<Rightarrow> swal \<Rightarrow> pageState" where
  "fire st a = st\<lparr>alerts := alerts st @ [a]\<rparr>"

text \<open>\<open>doc?.jsonData?.length\<close> is truthy: the document is there and has a row.\<close>

definition present :: "parsedExcel option \<Rightarrow> parsedExcel option" where
  "present d = (case d of None \<Rightarrow> None | Some p \<Rightarrow> if jsonData p = [] then None else Some p)"

text \<open>\<open>[...new Set(xs)]\<close>: the first occurrences, in order.\<close>

fun uniqueFrom :: "'a list \<Rightarrow> 'a list \<Rightarrow> 'a list" where
  "uniqueFrom seen [] = []"
| "uniqueFrom seen (x # xs) =
     (if x \<in> set seen then uniqueFrom seen xs else x # uniqueFrom (x # seen) xs)"

text \<open>\<open>g[0] ?? []\<close> and \<open>g.slice(1)\<close>.\<close>

definition headerOf :: "grid \<Rightarrow> cell list" where
  "headerOf g = (case g of [] \<Rightarrow> [] | h # _ \<Rightarrow> h)"

definition allWeeksOf :: "jsPrims \<Rightarrow> cell list \<Rightarrow> string list" where
  "allWeeksOf js idpHeaders =
     filter (\<lambda>s. s \<noteq> [] \<and> periodPattern s) (map (\<lambda>h. trim (cellString js h)) idpHeaders)"

definition weekInRange :: "jsPrims \<Rightarrow> num \<Rightarrow> num \<Rightarrow> string \<Rightarrow> bool" where
  "weekInRange js startW endW w =
     (case nthOpt (split CHR ''.'' w) 0 of
        None \<Rightarrow> False
      | Some p \<Rightarrow> (case jsNumber js p of None \<Rightarrow> False | Some n \<Rightarrow> n \<ge> startW \<and> n \<le> endW))"

definition selectedWeeksOf :: "jsPrims \<Rightarrow> pageState \<Rightarrow> string list \<Rightarrow> string list" where
  "selectedWeeksOf js st allWeeks =
     (let weeksInYear = filter (\<lambda>w. nthOpt (split CHR ''.'' w) 1 = Some (selectedYear st)) allWeeks
      in filter (weekInRange js (startWeek st) (endWeek st)) weeksInYear)"

definition lookupBomUom :: "jsPrims \<Rightarrow> string \<Rightarrow> grid \<Rightarrow> int \<Rightarrow> int \<Rightarrow> string" where
  "lookupBomUom js mat bomRows childPartIdx uomIdx =
     (case find (\<lambda>r. trim (cellString js (cellAt r childPartIdx)) = mat) bomRows of
        None \<Rightarrow> []
      | Some row \<Rightarrow> trim (cellString js (cellAt row uomIdx)))"

text \<open>\<open>totalDemand\<close> as the period loop accumulates it.\<close>

definition totalDemandOf :: "string list \<Rightarrow> (string \<times> num) list \<Rightarrow> num" where
  "totalDemandOf selectedWeeks demandByWeek =
     foldl (\<lambda>t (week, qty). if week \<in> set selectedWeeks then t + qty else t) 0 demandByWeek"

text \<open>
  The body of \<open>uniqueMaterials.map\<close>. The three objects \<open>weeklyDemand\<close>, \<open>weeklyMrpQty\<close>
  and \<open>weeklyPoDate\<close> get one entry per iteration of the period loop; the keys are the
  keys of a \<open>Map\<close>, so no entry is overwritten, and the objects are the lists of the
  entries in the order of the loop.
\<close>

definition mrpRowFor ::
  "jsPrims \<Rightarrow> (string \<rightharpoonup> mmInfo) \<Rightarrow> (string \<rightharpoonup> sdInfo) \<Rightarrow> demandMap \<Rightarrow> string list
     \<Rightarrow> parsedExcel option \<Rightarrow> grid \<Rightarrow> int \<Rightarrow> int \<Rightarrow> string \<Rightarrow> mrpRow" where
  "mrpRowFor js materialMasterMap supplierDetailsMap productionDemandMap selectedWeeks wp
     bomRows childPartIdx uomIdx mat =
     (let mmI = (case materialMasterMap mat of
                   None \<Rightarrow> \<lparr>mpq = 0, moq = 0, reorder = 0, instock = 0, pendingPo = 0\<rparr>
                 | Some i \<Rightarrow> i);
          sdI = (case supplierDetailsMap mat of
                   None \<Rightarrow> \<lparr>vendor = [], vendorLeadTime = 0, transportTime = 0, totalLeadTime = 0\<rparr>
                 | Some i \<Rightarrow> i);
          demandByWeek = (case map_of productionDemandMap mat of None \<Rightarrow> [] | Some wm \<Rightarrow> wm);
          steps = walkPeriods mmI (excessQty mmI) demandByWeek
      in \<lparr>material = mat,
          uom = lookupBomUom js mat bomRows childPartIdx uomIdx,
          supplierCode = vendor sdI,
          rowMpq = mpq mmI, rowMoq = moq mmI, rowReorder = reorder mmI,
          rowInstock = instock mmI, rowPendingPo = pendingPo mmI,
          rowExcessQty = excessQty mmI,
          leadTime = totalLeadTime sdI,
          weeklyDemand = map (\<lambda>s. (psWeek s, psQty s)) steps,
          weeklyMrpQty = map (\<lambda>s. (psWeek s, psRequired s)) steps,
          weeklyPoDate =
            map (\<lambda>s. (psWeek s,
                       calculatePoDate js (psWeek s) (Some (totalLeadTime sdI)) (psRequired s) wp))
              steps,
          totalDemand = totalDemandOf selectedWeeks demandByWeek\<rparr>)"

text \<open>The part of calculateMrpDataInternal after the three checks of its documents.\<close>

definition computeMrp ::
  "jsPrims \<Rightarrow> pageState \<Rightarrow> parsedExcel \<Rightarrow> parsedExcel \<Rightarrow> parsedExcel \<Rightarrow> parsedExcel
     \<Rightarrow> parsedExcel option \<Rightarrow> pageState" where
  "computeMrp js st bomDoc mmDoc idpDoc sdDoc wp =
     (let bomAllRows = jsonData bomDoc;
          bomHeaderRowIndex = findHeaderRowIndex bomAllRows (bomHeaderMatchers js) 10;
          bomHeaders = (case nthOpt bomAllRows bomHeaderRowIndex of None \<Rightarrow> [] | Some r \<Rightarrow> r);
          bomRows = drop (nat (bomHeaderRowIndex + 1)) bomAllRows;
          childPartIdx = findColumnIndex js bomHeaders childPartPredicates;
          uomIdx = findColumnIndex js bomHeaders uomPredicates
      in if childPartIdx = - 1 then
           (let headerPreview =
                  take 25 (filter (\<lambda>s. s \<noteq> []) (map (\<lambda>h. trim (cellString js h)) bomHeaders))
            in fire st (SwalColumnError (sheetName bomDoc)
                          (if headerPreview = [] then ''(empty)''
                           else foldr (\<lambda>s acc. if acc = [] then s else s @ '', '' @ acc)
                                  headerPreview [])))
         else
           (let uniqueMaterials =
                  uniqueFrom []
                    (filter (\<lambda>s. s \<noteq> [])
                       (map (\<lambda>r. trim (cellString js (cellAt r childPartIdx))) bomRows));
                mmHeaders = headerOf (jsonData mmDoc);
                mmRows = drop 1 (jsonData mmDoc);
                sdHeaders = headerOf (jsonData sdDoc);
                sdRows = drop 1 (jsonData sdDoc);
                idpHeaders = headerOf (jsonData idpDoc);
                idpRows = drop 1 (jsonData idpDoc);
                allWeeks = allWeeksOf js idpHeaders;
                selectedWeeks = selectedWeeksOf js st allWeeks;
                materialMasterMap = buildMaterialMasterMap js mmHeaders mmRows;
                supplierDetailsMap = buildSupplierDetailsMap js sdHeaders sdRows;
                productionDemandMap =
                  buildProductionDemandMap js idpHeaders idpRows bomHeaders bomRows selectedWeeks;
                mrpData =
                  map (mrpRowFor js materialMasterMap supplierDetailsMap productionDemandMap
                         selectedWeeks wp bomRows childPartIdx uomIdx)
                    uniqueMaterials
            in fire (st\<lparr>mrpCalculatedData := Some mrpData,
                         allWeekColumns := allWeeks,
                         weekColumns := selectedWeeks\<rparr>)
                 (SwalSuccess (length mrpData)
                    (length (filter (\<lambda>m. totalDemand m > 0) mrpData))
                    (startWeek st) (endWeek st) (length selectedWeeks))))"

definition calculateMrpDataInternal :: "jsPrims \<Rightarrow> pageState \<Rightarrow> inputs \<Rightarrow> pageState" where
  "calculateMrpDataInternal js st inp =
     (case present (bom inp) of
        None \<Rightarrow> fire st (SwalError ''Data Error'' ''BOM data is missing or empty'')
      | Some bomDoc \<Rightarrow>
          (case present (idp inp) of
             None \<Rightarrow>
               fire st (SwalError ''Data Error'' ''Production Plan (IDP) data is missing or empty'')
           | Some idpDoc \<Rightarrow>
               (case (present (materialMaster inp), present (supplierDetails inp)) of
                  (Some mmDoc, Some sdDoc) \<Rightarrow>
                    computeMrp js st bomDoc mmDoc idpDoc sdDoc (weekPlan inp)
                | _ \<Rightarrow>
                    fire st (SwalError ''Data Error''
                               ''Material Master / Supplier Details data is missing''))))"

section \<open>Concrete inputs for the examples\<close>

text \<open>A runtime whose conversions give nothing: the examples below use strings of
  digits and number cells only, which do not reach them.\<close>

definition jsStub :: jsPrims where
  "jsStub = \<lparr>numToStr = (\<lambda>n. []), strToNum = (\<lambda>s. None),
             serialToDay = (\<lambda>n. None), parseDay = (\<lambda>s. None)\<rparr>"

text \<open>A small run: the BOM makes child C of parent P with 5 per unit, the plan produces
  2 of P in week 01.2024, and 100 of C are in stock.\<close>

definition exampleInputs :: inputs where
  "exampleInputs =
     \<lparr>bom = Some \<lparr>sheetName = ''BOM'',
                     jsonData = [[CStr ''Derived Material'', CStr ''Child Part'', CStr ''Quantity''],
                                 [CStr ''P'', CStr ''C'', CNum 5]]\<rparr>,
      materialMaster = Some \<lparr>sheetName = ''MM'',
                     jsonData = [[CStr ''Material'', CStr ''Instock''], [CStr ''C'', CNum 100]]\<rparr>,
      idp = Some \<lparr>sheetName = ''IDP'',
                     jsonData = [[CStr ''Derived Material'', CStr ''01.2024'', CStr ''30.2024''],
                                 [CStr ''P'', CNum 2, CNum 4]]\<rparr>,
      supplierDetails = Some \<lparr>sheetName = ''SD'', jsonData = [[CStr ''Material'']]\<rparr>,
      weekPlan = None\<rparr>"

definition exampleState :: pageState where
  "exampleState =
     \<lparr>mrpCalculatedData = None, allWeekColumns = [], weekColumns = [],
      selectedYear = ''2024'', startWeek = 1, endWeek = 20, alerts = []\<rparr>"

section \<open>Properties of netting and lot sizing\<close>

lemma netExcess_after_le: "0 < q \<Longrightarrow> snd (netExcess r q) \<le> r"
  by (simp add: netExcess_def)

lemma netExcess_after_nonneg: "0 \<le> r \<Longrightarrow> 0 \<le> snd (netExcess r q)"
  by (simp add: netExcess_def)



lemma walkPeriods_hd: "walkPeriods mm r ps \<noteq> [] \<Longrightarrow> psBefore (hd (walkPeriods mm r ps)) = r"
  by (cases ps) (auto simp: case_prod_beta)

lemma walkPeriods_chain:
  "Suc i < length (walkPeriods mm r ps) \<Longrightarrow>
     psBefore (walkPeriods mm r ps ! Suc i) = psAfter (walkPeriods mm r ps ! i)"
proof (induction ps arbitrary: r i)
  case Nil
  then show ?case by simp
next
  case (Cons p ps)
  obtain week qty where p: "p = (week, qty)" by (cases p)
  define r' where "r' = (if qty > 0 then snd (netExcess r qty) else r)"
  have w: "tl (walkPeriods mm r (p # ps)) = walkPeriods mm r' ps"
    "psAfter (hd (walkPeriods mm r (p # ps))) = r'"
    by (simp_all add: p r'_def case_prod_beta)
  have ne: "walkPeriods mm r (p # ps) \<noteq> []" by (simp add: p case_prod_beta)
  then obtain s t where st: "walkPeriods mm r (p # ps) = s # t"
    by (cases "walkPeriods mm r (p # ps)") auto
  with w have t: "t = walkPeriods mm r' ps" and s: "psAfter s = r'" by simp_all
  show ?case
  proof (cases i)
    case 0
    from Cons.prems st 0 have "t \<noteq> []" by auto
    with walkPeriods_hd [of mm r' ps] t have "psBefore (hd t) = r'" by simp
    with \<open>t \<noteq> []\<close> show ?thesis by (simp add: st 0 s hd_conv_nth)
  next
    case (Suc j)
    from Cons.prems st Suc t have "Suc j < length (walkPeriods mm r' ps)" by simp
    from Cons.IH [OF this] show ?thesis by (simp add: st Suc t)
  qed
qed

lemma walkPeriods_nonincreasing:
  "s \<in> set (walkPeriods mm r ps) \<Longrightarrow> psAfter s \<le> psBefore s"
  by (induction ps arbitrary: r)
     (auto simp: case_prod_beta netExcess_after_le split: if_splits)

lemma walkPeriods_nonneg:
  "0 \<le> r \<Longrightarrow> s \<in> set (walkPeriods mm r ps) \<Longrightarrow> 0 \<le> psBefore s \<and> 0 \<le> psAfter s"
proof (induction ps arbitrary: r)
  case Nil
  then show ?case by simp
next
  case (Cons p ps)
  obtain week qty where p: "p = (week, qty)" by (cases p)
  show ?case
  proof (cases "qty > 0")
    case True
    from Cons.prems(1) have "0 \<le> snd (netExcess r qty)" by (rule netExcess_after_nonneg)
    with Cons.IH [of "snd (netExcess r qty)"] Cons.prems True show ?thesis
      by (auto simp: p case_prod_beta)
  next
    case False
    with Cons.IH [of r] Cons.prems show ?thesis by (auto simp: p)
  qed
qed

lemma walkPeriods_consumed:
  "0 \<le> r \<Longrightarrow> sum_list (map (\<lambda>s. psBefore s - psAfter s) (walkPeriods mm r ps)) \<le> r"
proof (induction ps arbitrary: r)
  case Nil
  then show ?case by simp
next
  case (Cons p ps)
  obtain week qty where p: "p = (week, qty)" by (cases p)
  show ?case
  proof (cases "qty > 0")
    case True
    from Cons.prems have "0 \<le> snd (netExcess r qty)" by (rule netExcess_after_nonneg)
    from Cons.IH [OF this] True show ?thesis by (simp add: p case_prod_beta)
  next
    case False
    with Cons.IH [OF Cons.prems] show ?thesis by (simp add: p)
  qed
qed





text \<open>
  C2 (amended). The running remainingExcess starts at excessQty = instock + pendingPo, each
  period starts from the value the previous one left, and it never increases. When
  excessQty is not negative, it never becomes negative and the excess consumed over all
  periods is at most excessQty.
\<close>

theorem excess_conservation:
  "(walkPeriods mm (excessQty mm) periods \<noteq> [] \<longrightarrow>
      psBefore (hd (walkPeriods mm (excessQty mm) periods)) = excessQty mm)
   \<and> (\<forall>i. Suc i < length (walkPeriods mm (excessQty mm) periods) \<longrightarrow>
          psBefore (walkPeriods mm (excessQty mm) periods ! Suc i)
            = psAfter (walkPeriods mm (excessQty mm) periods ! i))
   \<and> (\<forall>s \<in> set (walkPeriods mm (excessQty mm) periods). psAfter s \<le> psBefore s)
   \<and> (0 \<le> excessQty mm \<longrightarrow>
        (\<forall>s \<in> set (walkPeriods mm (excessQty mm) periods). 0 \<le> psBefore s \<and> 0 \<le> psAfter s)
        \<and> sum_list (map (\<lambda>s. psBefore s - psAfter s) (walkPeriods mm (excessQty mm) periods))
             \<le> excessQty mm)"
  using walkPeriods_hd [of mm "excessQty mm" periods]
    walkPeriods_chain [of _ mm "excessQty mm" periods]
    walkPeriods_nonincreasing [of _ mm "excessQty mm" periods]
    walkPeriods_nonneg [of "excessQty mm" _ mm periods]
    walkPeriods_consumed [of "excessQty mm" mm periods]
  by blast

theorem excess_conservation_witness:
  "walkPeriods \<lparr>mpq = 0, moq = 0, reorder = 0, instock = 8, pendingPo = 4\<rparr> 12
       [(''01.2024'', 10), (''02.2024'', 5)]
     = [\<lparr>psWeek = ''01.2024'', psQty = 10, psBefore = 12, psAdjusted = Some 0, psRequired = 0,
          psAfter = 2\<rparr>,
        \<lparr>psWeek = ''02.2024'', psQty = 5, psBefore = 2, psAdjusted = Some 3, psRequired = 3,
          psAfter = 0\<rparr>]
   \<and> (0::rat) \<le> 12 \<and> ((12 - 2) + (2 - 0) :: rat) \<le> 12"
  using excess_conservation
    [of "\<lparr>mpq = 0, moq = 0, reorder = 0, instock = 8, pendingPo = 4\<rparr>"
        "[(''01.2024'', 10), (''02.2024'', 5)]"]
  by (simp add: excessQty_def netExcess_def lotSize_def)

theorem excess_negative_counterexample:
  "psAfter (hd (walkPeriods \<lparr>mpq = 0, moq = 0, reorder = 0, instock = - 5, pendingPo = 0\<rparr>
                  (excessQty \<lparr>mpq = 0, moq = 0, reorder = 0, instock = - 5, pendingPo = 0\<rparr>)
                  [(''01.2024'', 10)])) < 0"
  by (simp add: excessQty_def netExcess_def lotSize_def)




section \<open>The calendar\<close>

lemma div_succ:
  assumes "(k::int) > 0"
  shows "(a + 1) div k = a div k + (if (a + 1) mod k = 0 then 1 else 0)"
proof (cases "a mod k + 1 = k")
  case True
  have "a + 1 = k * (a div k + 1) + 0" using True
    by (metis add.commute add.right_neutral distrib_left mult.right_neutral mult_div_mod_eq add.assoc)
  then have "(a + 1) div k = a div k + 1" "(a + 1) mod k = 0"
    using assms by (metis int_div_pos_eq order_refl, metis int_mod_pos_eq order_refl)
  then show ?thesis by simp
next
  case False
  have r: "0 \<le> a mod k + 1" "a mod k + 1 < k"
    using assms False pos_mod_bound [of k a] pos_mod_sign [of k a] by linarith+
  have "a + 1 = k * (a div k) + (a mod k + 1)" by simp
  then have e: "(a + 1) div k = a div k" "(a + 1) mod k = a mod k + 1"
    using r by (metis int_div_pos_eq, metis int_mod_pos_eq)
  have "a mod k + 1 \<noteq> 0" using pos_mod_sign [OF assms, of a] by linarith
  with e show ?thesis by simp
qed

lemma shift_mod: "((y::int) - k * c) mod k = y mod k"
  using mod_mult_self2 [of y k "- c"] by simp

lemma div_step:
  assumes "(k::int) > 0"
  shows "(y + 1 - (k * c + 1)) div k = (y - (k * c + 1)) div k + (if y mod k = 0 then 1 else 0)"
proof -
  have "y + 1 - (k * c + 1) = (y - (k * c + 1)) + 1" by simp
  moreover have "(y - (k * c + 1) + 1) mod k = y mod k"
    using shift_mod [of y k c] by (simp add: algebra_simps)
  ultimately show ?thesis using div_succ [OF assms, of "y - (k * c + 1)"] by presburger
qed

lemma dayFromYear_Suc: "dayFromYear (y + 1) = dayFromYear y + daysInYear y"
proof -
  define p4 p100 p400 where "p4 \<longleftrightarrow> y mod 4 = 0" and "p100 \<longleftrightarrow> y mod 100 = 0"
    and "p400 \<longleftrightarrow> y mod 400 = 0"
  define A B C where "A = (y - 1969) div 4" and "B = (y - 1901) div 100"
    and "C = (y - 1601) div 400"
  have a: "(y + 1 - 1969) div 4 = A + (if p4 then 1 else 0)"
    using div_step [of 4 y 492] by (simp add: p4_def A_def)
  have b: "(y + 1 - 1901) div 100 = B + (if p100 then 1 else 0)"
    using div_step [of 100 y 19] by (simp add: p100_def B_def)
  have c: "(y + 1 - 1601) div 400 = C + (if p400 then 1 else 0)"
    using div_step [of 400 y 4] by (simp add: p400_def C_def)
  have "(100::int) dvd 400" "(4::int) dvd 100" by simp_all
  then have d: "p400 \<Longrightarrow> p100" "p100 \<Longrightarrow> p4"
    unfolding p4_def p100_def p400_def mod_eq_0_iff_dvd using dvd_trans by blast+
  have l: "leapYear y \<longleftrightarrow> p4 \<and> (\<not> p100 \<or> p400)"
    unfolding leapYear_def p4_def p100_def p400_def ..
  have "dayFromYear (y + 1) = 365 * (y + 1 - 1970) + (A + (if p4 then 1 else 0))
          - (B + (if p100 then 1 else 0)) + (C + (if p400 then 1 else 0))"
    unfolding dayFromYear_def a b c ..
  moreover have "dayFromYear y = 365 * (y - 1970) + A - B + C"
    unfolding dayFromYear_def A_def B_def C_def ..
  ultimately show ?thesis
    using d unfolding daysInYear_def l by (cases p4; cases p100; cases p400; simp)
qed


lemma daysInYear_pos: "0 < daysInYear y"
  by (simp add: daysInYear_def)

lemma dayFromYear_pred: "dayFromYear (y - 1) + daysInYear (y - 1) = dayFromYear y"
  using dayFromYear_Suc [of "y - 1"] by simp

lemma yearWalk_inv:
  "yearWalk y n = (y', n') \<Longrightarrow>
     dayFromYear y' + n' = dayFromYear y + n \<and> 0 \<le> n' \<and> n' < daysInYear y'"
proof (induction y n rule: yearWalk.induct)
  case (1 y n)
  show ?case
  proof (cases "n < 0")
    case True
    with "1.prems" have "yearWalk (y - 1) (n + daysInYear (y - 1)) = (y', n')"
      by (simp add: yearWalk.simps [of y n])
    from "1.IH"(1) [OF True this] show ?thesis
      using dayFromYear_pred [of y] by linarith
  next
    case nonneg: False
    show ?thesis
    proof (cases "n \<ge> daysInYear y")
      case True
      with nonneg "1.prems" have "yearWalk (y + 1) (n - daysInYear y) = (y', n')"
        by (simp add: yearWalk.simps [of y n])
      from "1.IH"(2) [OF nonneg True this] show ?thesis
        using dayFromYear_Suc [of y] by linarith
    next
      case False
      with nonneg "1.prems" have "y' = y" "n' = n"
        by (simp_all add: yearWalk.simps [of y n])
      with nonneg False show ?thesis by simp
    qed
  qed
qed

lemma dayFromYear_mono_aux: "dayFromYear y + daysInYear y \<le> dayFromYear (y + 1 + int k)"
proof (induction k)
  case 0
  show ?case using dayFromYear_Suc [of y] by simp
next
  case (Suc k)
  have "dayFromYear (y + 1 + int (Suc k)) = dayFromYear (y + 1 + int k) + daysInYear (y + 1 + int k)"
    using dayFromYear_Suc [of "y + 1 + int k"] by (simp add: add.commute add.left_commute)
  with Suc daysInYear_pos [of "y + 1 + int k"] show ?case by linarith
qed

lemma dayFromYear_less: "y < y' \<Longrightarrow> dayFromYear y + daysInYear y \<le> dayFromYear y'"
  using dayFromYear_mono_aux [of y "nat (y' - y - 1)"] by simp

lemma year_unique:
  assumes "dayFromYear y' + n' = dayFromYear y + n"
    and "0 \<le> n'" "n' < daysInYear y'" "0 \<le> n" "n < daysInYear y"
  shows "y' = y \<and> n' = n"
proof -
  have "\<not> y' < y" using dayFromYear_less [of y' y] assms by linarith
  moreover have "\<not> y < y'" using dayFromYear_less [of y y'] assms by linarith
  ultimately have "y' = y" by linarith
  with assms show ?thesis by simp
qed

lemma yearWalk_unique:
  assumes "0 \<le> n" "n < daysInYear y"
  shows "yearWalk y0 (dayFromYear y + n - dayFromYear y0) = (y, n)"
proof -
  obtain y' n' where w: "yearWalk y0 (dayFromYear y + n - dayFromYear y0) = (y', n')"
    by (cases "yearWalk y0 (dayFromYear y + n - dayFromYear y0)") auto
  from yearWalk_inv [OF w] have "dayFromYear y' + n' = dayFromYear y + n"
    "0 \<le> n'" "n' < daysInYear y'" by linarith+
  from year_unique [OF this assms] w show ?thesis by simp
qed

lemma civil_in_year:
  assumes "0 \<le> n" "n < daysInYear y"
  shows "civil (dayFromYear y + n) =
           (y, fst (monthWalk (monthLengths (leapYear y)) 0 n),
               snd (monthWalk (monthLengths (leapYear y)) 0 n) + 1)"
  unfolding civil_def Let_def yearWalk_unique [OF assms] by (simp add: case_prod_beta)




lemma civil_2024: "civil (dayFromYear 2024 + 35) = (2024, 1, 5)"
  by (simp add: civil_in_year daysInYear_def leapYear_def monthLengths_def)

section \<open>The fallback date of calculatePoDate\<close>

lemma isDigit_not_dot: "isDigit c \<Longrightarrow> c \<noteq> CHR ''.''"
  by (auto simp: isDigit_def)


lemma periodPattern_form:
  assumes "periodPattern s"
  obtains a b d e f g where "s = [a, b, CHR ''.'', d, e, f, g]"
    "isDigit a" "isDigit b" "isDigit d" "isDigit e" "isDigit f" "isDigit g"
  using assms by (elim periodPattern.elims(2)) auto

lemma split_period:
  assumes "isDigit a" "isDigit b" "isDigit d" "isDigit e" "isDigit f" "isDigit g"
  shows "split CHR ''.'' [a, b, CHR ''.'', d, e, f, g] = [[a, b], [d, e, f, g]]"
  using assms [THEN isDigit_not_dot] by simp



lemma jsNumber_digits:
  "s \<noteq> [] \<Longrightarrow> length s \<le> 15 \<Longrightarrow> list_all isDigit s \<Longrightarrow>
     jsNumber js s = Some (of_nat (digitsValue s))"
  by (simp add: jsNumber_def)





















section \<open>Keeping the first best element of a list\<close>

lemma keep_first_best:
  fixes key :: "'a \<Rightarrow> 'k::linorder"
  shows "\<exists>pre post. cur # xs = pre @ foldl (\<lambda>b x. if key x < key b then x else b) cur xs # post
           \<and> (\<forall>x \<in> set pre. key (foldl (\<lambda>b x. if key x < key b then x else b) cur xs) < key x)
           \<and> (\<forall>x \<in> set post. key (foldl (\<lambda>b x. if key x < key b then x else b) cur xs) \<le> key x)"
proof (induction xs arbitrary: cur)
  case Nil
  have "[cur] = [] @ cur # []" by simp
  then show ?case by force
next
  case (Cons x xs)
  define c where "c = (if key x < key cur then x else cur)"
  define r where "r = foldl (\<lambda>b x. if key x < key b then x else b) c xs"
  have f: "foldl (\<lambda>b x. if key x < key b then x else b) cur (x # xs) = r"
    by (simp add: r_def c_def)
  from Cons [of c] obtain pre post where d: "c # xs = pre @ r # post"
    and lo: "\<forall>y \<in> set pre. key r < key y" and hi: "\<forall>y \<in> set post. key r \<le> key y"
    unfolding r_def by blast
  show ?case
  proof (cases pre)
    case Nil
    with d have rc: "r = c" and post: "post = xs" by simp_all
    show ?thesis
    proof (cases "key x < key cur")
      case True
      then have "r = x" by (simp add: rc c_def)
      then have "cur # x # xs = [cur] @ r # xs" by simp
      moreover have "\<forall>y \<in> set [cur]. key r < key y" using True \<open>r = x\<close> by simp
      moreover have "\<forall>y \<in> set xs. key r \<le> key y" using hi post by simp
      ultimately show ?thesis unfolding f by blast
    next
      case False
      then have "r = cur" by (simp add: rc c_def)
      then have "cur # x # xs = [] @ r # (x # xs)" by simp
      moreover have "\<forall>y \<in> set (x # xs). key r \<le> key y"
        using False hi post \<open>r = cur\<close> by auto
      ultimately show ?thesis unfolding f by (metis empty_iff list.set(1))
    qed
  next
    case (Cons p pre')
    with d have pc: "p = c" and xs: "xs = pre' @ r # post" by simp_all
    from lo Cons pc have "key r < key c" by simp
    then have "key r < key cur" "key r < key x"
      by (auto simp: c_def split: if_splits)
    then have "\<forall>y \<in> set (cur # x # pre'). key r < key y" using lo Cons by simp
    moreover have "cur # x # xs = (cur # x # pre') @ r # post" using xs by simp
    ultimately show ?thesis unfolding f using hi by blast
  qed
qed

section \<open>The supplier details map\<close>

text \<open>The entry of one material after the loop, from the entry before it and the
  entries of the material's rows.\<close>

lemma supplier_fold_key:
  assumes "k \<noteq> []"
  shows "foldl (supplierStep js vi ti) m rows k =
           foldl (\<lambda>b e. case b of None \<Rightarrow> Some e
                         | Some old \<Rightarrow> if totalLeadTime old > totalLeadTime e then Some e else Some old)
             (m k) (map (supplierEntry js vi ti) (filter (\<lambda>row. supplierKey js row = k) rows))"
proof (induction rows arbitrary: m)
  case Nil
  show ?case by simp
next
  case (Cons row rows)
  show ?case
    using assms
    by (simp add: Cons [of "supplierStep js vi ti m row"])
       (auto simp: supplierStep_def Let_def split: option.splits)
qed

lemma supplier_fold_Some:
  "foldl (\<lambda>b e. case b of None \<Rightarrow> Some e
                   | Some old \<Rightarrow> if totalLeadTime old > totalLeadTime e then Some e else Some old)
     (Some c) es
   = Some (foldl (\<lambda>b x. if totalLeadTime x < totalLeadTime b then x else b) c es)"
  by (induction es arbitrary: c) simp_all

lemma supplierEntry_total:
  "totalLeadTime (supplierEntry js vi ti row)
     = vendorLeadTime (supplierEntry js vi ti row) + transportTime (supplierEntry js vi ti row)"
  by (simp add: supplierEntry_def Let_def)

text \<open>
  C9. In the supplier details map, the entry stored for a material code is one of the
  entries of the data rows with that code, its totalLeadTime is vendorLeadTime +
  transportTime, every earlier row of the material has a strictly larger totalLeadTime and
  every later row has one at least as large: the minimum wins, and among equal minima
  the earliest row.
\<close>

theorem supplier_minimum_lead_time:
  assumes "k \<noteq> []" and "supplierEntriesFor js headers rows k \<noteq> []"
  shows "\<exists>pre r post.
           supplierEntriesFor js headers rows k = pre @ r # post
           \<and> buildSupplierDetailsMap js headers rows k = Some r
           \<and> totalLeadTime r = vendorLeadTime r + transportTime r
           \<and> (\<forall>x \<in> set pre. totalLeadTime r < totalLeadTime x)
           \<and> (\<forall>x \<in> set post. totalLeadTime r \<le> totalLeadTime x)"
proof -
  define vi ti where "vi = vendorLeadTimeIdx js headers" and "ti = transportTimeIdx js headers"
  define es where "es = supplierEntriesFor js headers rows k"
  from assms(2) obtain e0 es' where es: "es = e0 # es'"
    unfolding es_def by (cases "supplierEntriesFor js headers rows k") auto
  define r where "r = foldl (\<lambda>b x. if totalLeadTime x < totalLeadTime b then x else b) e0 es'"
  have "buildSupplierDetailsMap js headers rows k =
          foldl (\<lambda>b e. case b of None \<Rightarrow> Some e
                        | Some old \<Rightarrow> if totalLeadTime old > totalLeadTime e then Some e else Some old)
            None es"
    unfolding buildSupplierDetailsMap_def es_def supplierEntriesFor_def
    using supplier_fold_key [OF assms(1), of js _ _ Map.empty rows] by simp
  then have b: "buildSupplierDetailsMap js headers rows k = Some r"
    by (simp add: es supplier_fold_Some r_def)
  from keep_first_best [of e0 es' totalLeadTime] obtain pre post
    where d: "e0 # es' = pre @ r # post"
      and lo: "\<forall>x \<in> set pre. totalLeadTime r < totalLeadTime x"
      and hi: "\<forall>x \<in> set post. totalLeadTime r \<le> totalLeadTime x"
    unfolding r_def by blast
  from d es have "r \<in> set es" by (metis in_set_conv_decomp)
  then obtain row where "r = supplierEntry js vi ti row"
    unfolding es_def supplierEntriesFor_def vi_def ti_def by auto
  then have "totalLeadTime r = vendorLeadTime r + transportTime r"
    by (simp add: supplierEntry_total)
  with b d lo hi es show ?thesis unfolding es_def by metis
qed

theorem supplier_minimum_lead_time_witness:
  "''M1'' \<noteq> []
   \<and> supplierEntriesFor jsStub
        [CStr ''Material'', CStr ''Vendor'', CStr ''Vendor Lead-Time'', CStr ''Transport Time'']
        [[CStr ''M1'', CStr ''V1'', CNum 5, CNum 2], [CStr ''M1'', CStr ''V2'', CNum 3, CNum 1],
         [CStr ''M1'', CStr ''V3'', CNum 2, CNum 2]] ''M1''
      = [\<lparr>vendor = ''V1'', vendorLeadTime = 5, transportTime = 2, totalLeadTime = 7\<rparr>]
        @ \<lparr>vendor = ''V2'', vendorLeadTime = 3, transportTime = 1, totalLeadTime = 4\<rparr>
        # [\<lparr>vendor = ''V3'', vendorLeadTime = 2, transportTime = 2, totalLeadTime = 4\<rparr>]
   \<and> buildSupplierDetailsMap jsStub
        [CStr ''Material'', CStr ''Vendor'', CStr ''Vendor Lead-Time'', CStr ''Transport Time'']
        [[CStr ''M1'', CStr ''V1'', CNum 5, CNum 2], [CStr ''M1'', CStr ''V2'', CNum 3, CNum 1],
         [CStr ''M1'', CStr ''V3'', CNum 2, CNum 2]] ''M1''
      = Some \<lparr>vendor = ''V2'', vendorLeadTime = 3, transportTime = 1, totalLeadTime = 4\<rparr>"
proof -
  have k: "supplierKey jsStub [CStr ''M1'', CStr v, CNum a, CNum b] = ''M1''" for v a b
    by (simp add: supplierKey_def cellAt_def nthOpt_def cellString_def trim_def isSpace_def)
  have vi: "vendorLeadTimeIdx jsStub
        [CStr ''Material'', CStr ''Vendor'', CStr ''Vendor Lead-Time'', CStr ''Transport Time''] = 2"
    by code_simp
  have ti: "transportTimeIdx jsStub
        [CStr ''Material'', CStr ''Vendor'', CStr ''Vendor Lead-Time'', CStr ''Transport Time''] = 3"
    by code_simp
  have e: "supplierEntry jsStub 2 3 [CStr ''M1'', CStr [CHR ''V'', c], CNum a, CNum b]
             = \<lparr>vendor = [CHR ''V'', c], vendorLeadTime = a, transportTime = b, totalLeadTime = a + b\<rparr>"
    if "\<not> isSpace c" for a b c
    using that by (simp add: supplierEntry_def cellAt_def nthOpt_def cellString_def trim_def
        isSpace_def toNumber_def)
  have es: "supplierEntriesFor jsStub
        [CStr ''Material'', CStr ''Vendor'', CStr ''Vendor Lead-Time'', CStr ''Transport Time'']
        [[CStr ''M1'', CStr ''V1'', CNum 5, CNum 2], [CStr ''M1'', CStr ''V2'', CNum 3, CNum 1],
         [CStr ''M1'', CStr ''V3'', CNum 2, CNum 2]] ''M1''
      = [\<lparr>vendor = ''V1'', vendorLeadTime = 5, transportTime = 2, totalLeadTime = 7\<rparr>,
         \<lparr>vendor = ''V2'', vendorLeadTime = 3, transportTime = 1, totalLeadTime = 4\<rparr>,
         \<lparr>vendor = ''V3'', vendorLeadTime = 2, transportTime = 2, totalLeadTime = 4\<rparr>]"
    by (simp add: supplierEntriesFor_def k vi ti e isSpace_def)
  have ne: "''M1'' \<noteq> []" by simp
  from supplier_minimum_lead_time [OF ne, of jsStub
        "[CStr ''Material'', CStr ''Vendor'', CStr ''Vendor Lead-Time'', CStr ''Transport Time'']"
        "[[CStr ''M1'', CStr ''V1'', CNum 5, CNum 2], [CStr ''M1'', CStr ''V2'', CNum 3, CNum 1],
         [CStr ''M1'', CStr ''V3'', CNum 2, CNum 2]]"]
  obtain pre r post where
    d: "[\<lparr>vendor = ''V1'', vendorLeadTime = 5, transportTime = 2, totalLeadTime = 7\<rparr>,
         \<lparr>vendor = ''V2'', vendorLeadTime = 3, transportTime = 1, totalLeadTime = 4\<rparr>,
         \<lparr>vendor = ''V3'', vendorLeadTime = 2, transportTime = 2, totalLeadTime = (4::rat)\<rparr>]
        = pre @ r # post"
    and b: "buildSupplierDetailsMap jsStub
        [CStr ''Material'', CStr ''Vendor'', CStr ''Vendor Lead-Time'', CStr ''Transport Time'']
        [[CStr ''M1'', CStr ''V1'', CNum 5, CNum 2], [CStr ''M1'', CStr ''V2'', CNum 3, CNum 1],
         [CStr ''M1'', CStr ''V3'', CNum 2, CNum 2]] ''M1'' = Some r"
    and lo: "\<forall>x \<in> set pre. totalLeadTime r < totalLeadTime x"
    and hi: "\<forall>x \<in> set post. totalLeadTime r \<le> totalLeadTime x"
    unfolding es by auto
  from d lo hi have "r = \<lparr>vendor = ''V2'', vendorLeadTime = 3, transportTime = 1, totalLeadTime = 4\<rparr>"
    by (auto simp: Cons_eq_append_conv)
  with b es show ?thesis by simp
qed

section \<open>Sheet selection\<close>

lemma addIf_nonneg: "0 \<le> w \<Longrightarrow> 0 \<le> s \<Longrightarrow> 0 \<le> addIf b w s"
  by (simp add: addIf_def)

lemma score_nonneg: "0 \<le> scoreSheetByType js t sn aoa"
  by (cases t) (simp_all add: scoreSheetByType_def Let_def addIf_nonneg)

lemma score_first_rows: "scoreSheetByType js t sn (take 15 aoa) = scoreSheetByType js t sn aoa"
  by (simp add: scoreSheetByType_def)

text \<open>The loop over the sheet names is a loop over the scored sheets.\<close>

lemma considerSheet_fold:
  "foldl (considerSheet js wb t) b names =
     foldl (\<lambda>b c. if - fst (snd c) < - fst (snd b) then c else b) b
       (map (\<lambda>(sn, aoa). (sn, scoreSheetByType js t sn aoa, Some aoa))
          (concat (map (\<lambda>sn. case Sheets wb sn of None \<Rightarrow> [] | Some aoa \<Rightarrow> [(sn, aoa)]) names)))"
proof (induction names arbitrary: b)
  case Nil
  show ?case by simp
next
  case (Cons sn names)
  have step: "considerSheet js wb t b sn =
      (case Sheets wb sn of None \<Rightarrow> b
       | Some aoa \<Rightarrow> if - scoreSheetByType js t sn aoa < - fst (snd b)
                     then (sn, scoreSheetByType js t sn aoa, Some aoa) else b)"
    by (simp add: considerSheet_def Let_def split: option.splits)
  show ?case
    by (cases "Sheets wb sn") (simp_all add: Cons step)
qed

lemma parseExcel_none:
  assumes "scoredSheets wb = []"
  shows "parseExcelArrayBuffer js wb t =
           \<lparr>sheetName = (case SheetNames wb of [] \<Rightarrow> ''Sheet1'' | n # _ \<Rightarrow> n), jsonData = []\<rparr>"
proof -
  have "foldl (considerSheet js wb t) (initialBest wb) (SheetNames wb) = initialBest wb"
    unfolding considerSheet_fold assms [unfolded scoredSheets_def] by simp
  then show ?thesis by (simp add: parseExcelArrayBuffer_def initialBest_def)
qed

lemma parseExcel_some:
  assumes "scoredSheets wb \<noteq> []"
  shows "\<exists>pre c post. scoredSheets wb = pre @ c # post
           \<and> parseExcelArrayBuffer js wb t = \<lparr>sheetName = fst c, jsonData = snd c\<rparr>
           \<and> (\<forall>x \<in> set pre. scoreSheetByType js t (fst x) (snd x) < scoreSheetByType js t (fst c) (snd c))
           \<and> (\<forall>x \<in> set post. scoreSheetByType js t (fst x) (snd x) \<le> scoreSheetByType js t (fst c) (snd c))"
proof -
  define tb :: "string \<times> grid \<Rightarrow> best"
    where "tb = (\<lambda>(sn, aoa). (sn, scoreSheetByType js t sn aoa, Some aoa))"
  define key :: "best \<Rightarrow> int" where "key = (\<lambda>b. - fst (snd b))"
  define r where "r = foldl (\<lambda>b c. if key c < key b then c else b) (initialBest wb)
                        (map tb (scoredSheets wb))"
  have fold: "foldl (considerSheet js wb t) (initialBest wb) (SheetNames wb) = r"
    unfolding r_def key_def tb_def scoredSheets_def by (rule considerSheet_fold)
  from keep_first_best [of "initialBest wb" "map tb (scoredSheets wb)" key]
  obtain pre post where d: "initialBest wb # map tb (scoredSheets wb) = pre @ r # post"
    and lo: "\<forall>x \<in> set pre. key r < key x" and hi: "\<forall>x \<in> set post. key r \<le> key x"
    unfolding r_def by blast
  have keytb: "key (tb x) = - scoreSheetByType js t (fst x) (snd x)" for x
    by (simp add: key_def tb_def case_prod_beta)
  have keyinit: "key (initialBest wb) = 1" by (simp add: key_def initialBest_def)
  have pre_ne: "pre \<noteq> []"
  proof
    assume "pre = []"
    with d have "r = initialBest wb" and p: "post = map tb (scoredSheets wb)" by simp_all
    from assms obtain x where "x \<in> set (scoredSheets wb)" by (cases "scoredSheets wb") auto
    with p have "tb x \<in> set post" by simp
    with hi have "key r \<le> key (tb x)" by simp
    with \<open>r = initialBest wb\<close> keyinit keytb [of x] score_nonneg [of js t "fst x" "snd x"]
    show False by simp
  qed
  then obtain pre' where pre: "pre = initialBest wb # pre'"
    and m: "map tb (scoredSheets wb) = pre' @ r # post"
    using d by (cases pre) auto
  from m obtain p1 c p2 where s: "scoredSheets wb = p1 @ c # p2"
    and p1: "pre' = map tb p1" and c: "r = tb c" and p2: "post = map tb p2"
    by (auto simp: map_eq_append_conv map_eq_Cons_conv)
  have res: "parseExcelArrayBuffer js wb t = \<lparr>sheetName = fst c, jsonData = snd c\<rparr>"
    by (simp add: parseExcelArrayBuffer_def fold c tb_def case_prod_beta)
  have "\<forall>x \<in> set p1. scoreSheetByType js t (fst x) (snd x) < scoreSheetByType js t (fst c) (snd c)"
    using lo pre p1 c keytb by auto
  moreover have "\<forall>x \<in> set p2. scoreSheetByType js t (fst x) (snd x) \<le> scoreSheetByType js t (fst c) (snd c)"
    using hi p2 c keytb by auto
  ultimately show ?thesis using s res by blast
qed

text \<open>
  C8. For every workbook and document type, the score of a sheet depends on its name and
  its first 15 rows only; every scored sheet scores above the sentinel -1; when there is
  a scored sheet, the selected one has a score strictly higher than every sheet before it
  in workbook order and at least as high as every sheet after it (the highest score, the
  first one among equals); when no sheet scores above -1, the result is the first sheet
  name (\<open>Sheet1\<close> when the workbook has no names) with an empty grid.
\<close>

theorem sheet_selection:
  "scoreSheetByType js t sn aoa = scoreSheetByType js t sn (take 15 aoa)
   \<and> (\<forall>x \<in> set (scoredSheets wb). - 1 < scoreSheetByType js t (fst x) (snd x))
   \<and> (scoredSheets wb \<noteq> [] \<longrightarrow>
        (\<exists>pre c post. scoredSheets wb = pre @ c # post
           \<and> parseExcelArrayBuffer js wb t = \<lparr>sheetName = fst c, jsonData = snd c\<rparr>
           \<and> (\<forall>x \<in> set pre. scoreSheetByType js t (fst x) (snd x)
                               < scoreSheetByType js t (fst c) (snd c))
           \<and> (\<forall>x \<in> set post. scoreSheetByType js t (fst x) (snd x)
                                \<le> scoreSheetByType js t (fst c) (snd c))))
   \<and> ((\<forall>x \<in> set (scoredSheets wb). scoreSheetByType js t (fst x) (snd x) \<le> - 1) \<longrightarrow>
        parseExcelArrayBuffer js wb t =
          \<lparr>sheetName = (case SheetNames wb of [] \<Rightarrow> ''Sheet1'' | n # _ \<Rightarrow> n), jsonData = []\<rparr>)"
proof (intro conjI ballI impI)
  show "scoreSheetByType js t sn aoa = scoreSheetByType js t sn (take 15 aoa)"
    by (simp add: score_first_rows)
next
  fix x
  show "- 1 < scoreSheetByType js t (fst x) (snd x)"
    using score_nonneg [of js t "fst x" "snd x"] by simp
next
  assume "scoredSheets wb \<noteq> []"
  then show "\<exists>pre c post. scoredSheets wb = pre @ c # post
           \<and> parseExcelArrayBuffer js wb t = \<lparr>sheetName = fst c, jsonData = snd c\<rparr>
           \<and> (\<forall>x \<in> set pre. scoreSheetByType js t (fst x) (snd x)
                               < scoreSheetByType js t (fst c) (snd c))
           \<and> (\<forall>x \<in> set post. scoreSheetByType js t (fst x) (snd x)
                                \<le> scoreSheetByType js t (fst c) (snd c))"
    by (rule parseExcel_some)
next
  assume a: "\<forall>x \<in> set (scoredSheets wb). scoreSheetByType js t (fst x) (snd x) \<le> - 1"
  have "scoredSheets wb = []"
  proof (cases "scoredSheets wb")
    case Nil
    then show ?thesis .
  next
    case (Cons x xs)
    with a have "scoreSheetByType js t (fst x) (snd x) \<le> - 1" by simp
    with score_nonneg [of js t "fst x" "snd x"] show ?thesis by simp
  qed
  then show "parseExcelArrayBuffer js wb t =
          \<lparr>sheetName = (case SheetNames wb of [] \<Rightarrow> ''Sheet1'' | n # _ \<Rightarrow> n), jsonData = []\<rparr>"
    by (rule parseExcel_none)
qed

theorem sheet_selection_witness:
  "scoredSheets \<lparr>SheetNames = [''Data'', ''BOM'', ''BOM2''],
                  Sheets = map_of [(''Data'', [[CStr ''x'']]), (''BOM'', [[CStr ''Child Part'']]),
                                   (''BOM2'', [[CStr ''Child Part'']])]\<rparr> \<noteq> []
   \<and> parseExcelArrayBuffer jsStub
        \<lparr>SheetNames = [''Data'', ''BOM'', ''BOM2''],
          Sheets = map_of [(''Data'', [[CStr ''x'']]), (''BOM'', [[CStr ''Child Part'']]),
                           (''BOM2'', [[CStr ''Child Part'']])]\<rparr> Bom
      = \<lparr>sheetName = ''BOM'', jsonData = [[CStr ''Child Part'']]\<rparr>
   \<and> scoredSheets \<lparr>SheetNames = [''Only''], Sheets = Map.empty\<rparr> = []
   \<and> parseExcelArrayBuffer jsStub \<lparr>SheetNames = [''Only''], Sheets = Map.empty\<rparr> Bom
      = \<lparr>sheetName = ''Only'', jsonData = []\<rparr>"
proof -
  define wb where "wb = \<lparr>SheetNames = [''Data'', ''BOM'', ''BOM2''],
                  Sheets = map_of [(''Data'', [[CStr ''x'']]), (''BOM'', [[CStr ''Child Part'']]),
                                   (''BOM2'', [[CStr ''Child Part'']])]\<rparr>"
  have ss: "scoredSheets wb = [(''Data'', [[CStr ''x'']]), (''BOM'', [[CStr ''Child Part'']]),
                              (''BOM2'', [[CStr ''Child Part'']])]"
    by (simp add: scoredSheets_def wb_def)
  have sc: "scoreSheetByType jsStub Bom ''Data'' [[CStr ''x'']] = 0"
    "scoreSheetByType jsStub Bom ''BOM'' [[CStr ''Child Part'']] = 8"
    "scoreSheetByType jsStub Bom ''BOM2'' [[CStr ''Child Part'']] = 8"
    by code_simp+
  have ne: "scoredSheets wb \<noteq> []" by (simp add: ss)
  from sheet_selection [of jsStub Bom "[]" "[]" wb] ne
  have "\<exists>pre c post. scoredSheets wb = pre @ c # post
           \<and> parseExcelArrayBuffer jsStub wb Bom = \<lparr>sheetName = fst c, jsonData = snd c\<rparr>
           \<and> (\<forall>x \<in> set pre. scoreSheetByType jsStub Bom (fst x) (snd x)
                               < scoreSheetByType jsStub Bom (fst c) (snd c))
           \<and> (\<forall>x \<in> set post. scoreSheetByType jsStub Bom (fst x) (snd x)
                                \<le> scoreSheetByType jsStub Bom (fst c) (snd c))"
    by blast
  then obtain pre c post where d0: "scoredSheets wb = pre @ c # post"
    and r: "parseExcelArrayBuffer jsStub wb Bom = \<lparr>sheetName = fst c, jsonData = snd c\<rparr>"
    and lo: "\<forall>x \<in> set pre. scoreSheetByType jsStub Bom (fst x) (snd x)
                               < scoreSheetByType jsStub Bom (fst c) (snd c)"
    and hi: "\<forall>x \<in> set post. scoreSheetByType jsStub Bom (fst x) (snd x)
                                \<le> scoreSheetByType jsStub Bom (fst c) (snd c)"
    by blast
  from d0 ss have d: "[(''Data'', [[CStr ''x'']]), (''BOM'', [[CStr ''Child Part'']]),
                              (''BOM2'', [[CStr ''Child Part'']])] = pre @ c # post" by simp
  from d lo hi have "c = (''BOM'', [[CStr ''Child Part'']])"
    by (auto simp: Cons_eq_append_conv sc)
  with r have a: "parseExcelArrayBuffer jsStub wb Bom
      = \<lparr>sheetName = ''BOM'', jsonData = [[CStr ''Child Part'']]\<rparr>" by simp
  have e: "scoredSheets \<lparr>SheetNames = [''Only''], Sheets = Map.empty\<rparr> = []"
    by (simp add: scoredSheets_def)
  from sheet_selection [of jsStub Bom "[]" "[]" "\<lparr>SheetNames = [''Only''], Sheets = Map.empty\<rparr>"] e
  have b: "parseExcelArrayBuffer jsStub \<lparr>SheetNames = [''Only''], Sheets = Map.empty\<rparr> Bom
      = \<lparr>sheetName = ''Only'', jsonData = []\<rparr>" by simp
  from a b ss e show ?thesis unfolding wb_def by simp
qed

section \<open>Column roles\<close>

lemma findIndex_range: "findIndex p xs = - 1 \<or> (0 \<le> findIndex p xs \<and> findIndex p xs < int (length xs))"
  by (induction xs) (auto simp: Let_def)

lemma findIndex_none: "findIndex p xs < 0 \<longleftrightarrow> (\<forall>x \<in> set xs. \<not> p x)"
  using findIndex_range [of p]
  by (induction xs) (auto simp: Let_def)

lemma findIndex_first:
  "0 \<le> findIndex p xs \<Longrightarrow>
     nat (findIndex p xs) < length xs \<and> p (xs ! nat (findIndex p xs))
       \<and> (\<forall>j < nat (findIndex p xs). \<not> p (xs ! j))"
proof (induction xs)
  case Nil
  then show ?case by simp
next
  case (Cons x xs)
  show ?case
  proof (cases "p x")
    case True
    then show ?thesis by simp
  next
    case False
    with Cons.prems have nn: "0 \<le> findIndex p xs"
      by (simp add: Let_def split: if_splits)
    with False have e: "findIndex p (x # xs) = findIndex p xs + 1" by (simp add: Let_def)
    from nn have n: "nat (findIndex p xs + 1) = Suc (nat (findIndex p xs))" by simp
    from Cons.IH [OF nn] False show ?thesis
      unfolding e n by (auto simp: less_Suc_eq_0_disj)
  qed
qed

lemma findIndex_cong_pred: "(\<And>x. x \<in> set xs \<Longrightarrow> p x = q x) \<Longrightarrow> findIndex p xs = findIndex q xs"
  by (induction xs) (simp_all add: Let_def)

text \<open>
  C5 (amended). Column role resolution assigns to a role the leftmost column whose
  normalized header text is not empty and satisfies at least one of the role's matchers,
  and -1 when there is no such column; the order of the matchers has no effect. For the
  child part role a header \<open>Component\<close> to the left of a header \<open>Child Part\<close> is
  chosen.
\<close>

theorem column_role_leftmost:
  "(findColumnIndex js headers predicates = - 1
      \<and> (\<forall>v \<in> set headers. normalizeHeaderValue js v = []
             \<or> (\<forall>p \<in> set predicates. \<not> p (normalizeHeaderValue js v)))
    \<or> 0 \<le> findColumnIndex js headers predicates
      \<and> nat (findColumnIndex js headers predicates) < length headers
      \<and> normalizeHeaderValue js (headers ! nat (findColumnIndex js headers predicates)) \<noteq> []
      \<and> (\<exists>p \<in> set predicates.
            p (normalizeHeaderValue js (headers ! nat (findColumnIndex js headers predicates))))
      \<and> (\<forall>j < nat (findColumnIndex js headers predicates).
            normalizeHeaderValue js (headers ! j) = []
            \<or> (\<forall>p \<in> set predicates. \<not> p (normalizeHeaderValue js (headers ! j)))))
   \<and> (set predicates = set predicates' \<longrightarrow>
        findColumnIndex js headers predicates = findColumnIndex js headers predicates')"
proof -
  define ok where "ok = (\<lambda>ps v. let h = normalizeHeaderValue js v in h \<noteq> [] \<and> list_ex (\<lambda>p. p h) ps)"
  have fc: "findColumnIndex js headers ps = findIndex (ok ps) headers" for ps
    by (simp add: findColumnIndex_def ok_def)
  have okd: "ok ps v \<longleftrightarrow> normalizeHeaderValue js v \<noteq> [] \<and> (\<exists>p \<in> set ps. p (normalizeHeaderValue js v))"
    for ps v by (simp add: ok_def Let_def list_ex_iff)
  have a: "findColumnIndex js headers predicates = - 1
      \<and> (\<forall>v \<in> set headers. normalizeHeaderValue js v = []
             \<or> (\<forall>p \<in> set predicates. \<not> p (normalizeHeaderValue js v)))
    \<or> 0 \<le> findColumnIndex js headers predicates
      \<and> nat (findColumnIndex js headers predicates) < length headers
      \<and> normalizeHeaderValue js (headers ! nat (findColumnIndex js headers predicates)) \<noteq> []
      \<and> (\<exists>p \<in> set predicates.
            p (normalizeHeaderValue js (headers ! nat (findColumnIndex js headers predicates))))
      \<and> (\<forall>j < nat (findColumnIndex js headers predicates).
            normalizeHeaderValue js (headers ! j) = []
            \<or> (\<forall>p \<in> set predicates. \<not> p (normalizeHeaderValue js (headers ! j))))"
  proof -
    define i where "i = findIndex (ok predicates) headers"
    have fi: "findColumnIndex js headers predicates = i" by (simp add: fc i_def)
    show ?thesis
    proof (cases "0 \<le> i")
      case True
      from findIndex_first [of "ok predicates" headers] True
      have f: "nat i < length headers" "ok predicates (headers ! nat i)"
        "\<forall>j < nat i. \<not> ok predicates (headers ! j)"
        unfolding i_def by simp_all
      from f(2) have g: "normalizeHeaderValue js (headers ! nat i) \<noteq> []"
        "\<exists>p \<in> set predicates. p (normalizeHeaderValue js (headers ! nat i))"
        by (simp_all add: okd)
      have h: "\<forall>j < nat i. normalizeHeaderValue js (headers ! j) = []
            \<or> (\<forall>p \<in> set predicates. \<not> p (normalizeHeaderValue js (headers ! j)))"
      proof (intro allI impI)
        fix j assume "j < nat i"
        with f(3) have "\<not> ok predicates (headers ! j)" by simp
        then show "normalizeHeaderValue js (headers ! j) = []
            \<or> (\<forall>p \<in> set predicates. \<not> p (normalizeHeaderValue js (headers ! j)))"
          by (auto simp: okd)
      qed
      from True f(1) g h show ?thesis unfolding fi by blast
    next
      case False
      then have neg: "findIndex (ok predicates) headers < 0" by (simp add: i_def)
      then have n: "\<forall>v \<in> set headers. \<not> ok predicates v"
        by (simp add: findIndex_none)
      have h: "\<forall>v \<in> set headers. normalizeHeaderValue js v = []
             \<or> (\<forall>p \<in> set predicates. \<not> p (normalizeHeaderValue js v))"
      proof
        fix v assume "v \<in> set headers"
        with n have "\<not> ok predicates v" by simp
        then show "normalizeHeaderValue js v = []
             \<or> (\<forall>p \<in> set predicates. \<not> p (normalizeHeaderValue js v))"
          by (auto simp: okd)
      qed
      have "i = - 1" using False findIndex_range [of "ok predicates" headers] by (auto simp: i_def)
      with h show ?thesis unfolding fi by blast
    qed
  qed
  have b: "set predicates = set predicates' \<longrightarrow>
        findColumnIndex js headers predicates = findColumnIndex js headers predicates'"
  proof
    assume "set predicates = set predicates'"
    then have "ok predicates v = ok predicates' v" for v by (simp add: okd)
    then show "findColumnIndex js headers predicates = findColumnIndex js headers predicates'"
      unfolding fc by (intro findIndex_cong_pred)
  qed
  from a b show ?thesis by blast
qed

theorem column_role_leftmost_witness:
  "set childPartPredicates = set (rev childPartPredicates)
   \<and> findColumnIndex jsStub [CStr ''Qty'', CStr ''Child Part''] (rev childPartPredicates) = 1"
proof -
  have s: "set childPartPredicates = set (rev childPartPredicates)" by (rule set_rev [symmetric])
  have one: "findColumnIndex jsStub [CStr ''Qty'', CStr ''Child Part''] childPartPredicates = 1"
    by code_simp
  note e = column_role_leftmost [of jsStub "[CStr ''Qty'', CStr ''Child Part'']"
      childPartPredicates "rev childPartPredicates", THEN conjunct2, THEN mp, OF s]
  from e one have "findColumnIndex jsStub [CStr ''Qty'', CStr ''Child Part'']
      (rev childPartPredicates) = 1" by (simp only:)
  with s show ?thesis by (intro conjI)
qed

theorem column_role_priority_counterexample:
  "findColumnIndex jsStub [CStr ''Component'', CStr ''Child Part''] childPartPredicates = 0
   \<and> (childPartPredicates ! 0) (normalizeHeaderValue jsStub (CStr ''Child Part''))
   \<and> \<not> (childPartPredicates ! 0) (normalizeHeaderValue jsStub (CStr ''Component''))
   \<and> (childPartPredicates ! 4) (normalizeHeaderValue jsStub (CStr ''Component''))"
  by code_simp

section \<open>Missing documents\<close>

lemma present_None: "present d = None \<longleftrightarrow> d = None \<or> (\<exists>p. d = Some p \<and> jsonData p = [])"
  by (cases d) (simp_all add: present_def)

lemma computeMrp_outcome:
  "(\<exists>a b. computeMrp js st bomDoc mmDoc idpDoc sdDoc wp = fire st (SwalColumnError a b))
   \<or> (\<exists>rows aw sw n m k.
         computeMrp js st bomDoc mmDoc idpDoc sdDoc wp
           = fire (st\<lparr>mrpCalculatedData := Some rows, allWeekColumns := aw, weekColumns := sw\<rparr>)
               (SwalSuccess n m (startWeek st) (endWeek st) k))"
  unfolding computeMrp_def Let_def
  by (cases "findColumnIndex js
               (case nthOpt (jsonData bomDoc)
                       (findHeaderRowIndex (jsonData bomDoc) (bomHeaderMatchers js) 10) of
                  None \<Rightarrow> [] | Some r \<Rightarrow> r) childPartPredicates = - 1")
     (simp_all, blast+)

text \<open>
  C7. If the BOM, the production plan, the material master or the supplier details
  document is absent or empty, calculateMrpDataInternal fires an error that names the
  missing source and changes nothing else: the displayed result, the week columns and
  every other field of the page state stay as they were. In general, a run either fires
  an error and leaves the page state as it was, or stores the complete list of rows and
  fires the success message; rows are never stored together with an error.
\<close>

theorem missing_document_aborts:
  "((present (bom inp) = None \<or> present (idp inp) = None
      \<or> present (materialMaster inp) = None \<or> present (supplierDetails inp) = None) \<longrightarrow>
     calculateMrpDataInternal js st inp =
       st\<lparr>alerts := alerts st @
            [SwalError ''Data Error''
               (if present (bom inp) = None then ''BOM data is missing or empty''
                else if present (idp inp) = None
                  then ''Production Plan (IDP) data is missing or empty''
                else ''Material Master / Supplier Details data is missing'')]\<rparr>
     \<and> mrpCalculatedData (calculateMrpDataInternal js st inp) = mrpCalculatedData st)
   \<and> (present d = None \<longleftrightarrow> d = None \<or> (\<exists>p. d = Some p \<and> jsonData p = []))
   \<and> ((\<exists>a. calculateMrpDataInternal js st inp = st\<lparr>alerts := alerts st @ [a]\<rparr>
            \<and> (\<forall>n m s e k. a \<noteq> SwalSuccess n m s e k))
        \<or> (\<exists>rows aw sw n m k.
              calculateMrpDataInternal js st inp
                = st\<lparr>mrpCalculatedData := Some rows, allWeekColumns := aw, weekColumns := sw,
                     alerts := alerts st @ [SwalSuccess n m (startWeek st) (endWeek st) k]\<rparr>))"
proof (intro conjI impI)
  assume m: "present (bom inp) = None \<or> present (idp inp) = None
      \<or> present (materialMaster inp) = None \<or> present (supplierDetails inp) = None"
  then show e: "calculateMrpDataInternal js st inp =
       st\<lparr>alerts := alerts st @
            [SwalError ''Data Error''
               (if present (bom inp) = None then ''BOM data is missing or empty''
                else if present (idp inp) = None
                  then ''Production Plan (IDP) data is missing or empty''
                else ''Material Master / Supplier Details data is missing'')]\<rparr>"
    by (auto simp: calculateMrpDataInternal_def fire_def split: option.splits)
  show "mrpCalculatedData (calculateMrpDataInternal js st inp) = mrpCalculatedData st"
    unfolding e by simp
next
  show "present d = None \<longleftrightarrow> d = None \<or> (\<exists>p. d = Some p \<and> jsonData p = [])"
    by (rule present_None)
next
  show "(\<exists>a. calculateMrpDataInternal js st inp = st\<lparr>alerts := alerts st @ [a]\<rparr>
            \<and> (\<forall>n m s e k. a \<noteq> SwalSuccess n m s e k))
        \<or> (\<exists>rows aw sw n m k.
              calculateMrpDataInternal js st inp
                = st\<lparr>mrpCalculatedData := Some rows, allWeekColumns := aw, weekColumns := sw,
                     alerts := alerts st @ [SwalSuccess n m (startWeek st) (endWeek st) k]\<rparr>)"
  proof (cases "present (bom inp) = None \<or> present (idp inp) = None
      \<or> present (materialMaster inp) = None \<or> present (supplierDetails inp) = None")
    case True
    then have "\<exists>t. calculateMrpDataInternal js st inp
                 = st\<lparr>alerts := alerts st @ [SwalError ''Data Error'' t]\<rparr>"
      by (auto simp: calculateMrpDataInternal_def fire_def split: option.splits)
    then show ?thesis by blast
  next
    case False
    then obtain b i mm sd where p: "present (bom inp) = Some b" "present (idp inp) = Some i"
      "present (materialMaster inp) = Some mm" "present (supplierDetails inp) = Some sd"
      by auto
    then have c: "calculateMrpDataInternal js st inp = computeMrp js st b mm i sd (weekPlan inp)"
      by (simp add: calculateMrpDataInternal_def)
    from computeMrp_outcome [of js st b mm i sd "weekPlan inp"] show ?thesis
      unfolding c fire_def by (elim disjE exE) (rule disjI1, force, rule disjI2, force)
  qed
qed

theorem missing_document_aborts_witness:
  "present (bom \<lparr>bom = None, materialMaster = None, idp = None, supplierDetails = None,
                  weekPlan = None\<rparr>) = None
   \<and> mrpCalculatedData
       (calculateMrpDataInternal jsStub
          \<lparr>mrpCalculatedData = Some [], allWeekColumns = [], weekColumns = [],
            selectedYear = ''2024'', startWeek = 1, endWeek = 20, alerts = []\<rparr>
          \<lparr>bom = None, materialMaster = None, idp = None, supplierDetails = None,
            weekPlan = None\<rparr>) = Some []
   \<and> alerts
       (calculateMrpDataInternal jsStub
          \<lparr>mrpCalculatedData = Some [], allWeekColumns = [], weekColumns = [],
            selectedYear = ''2024'', startWeek = 1, endWeek = 20, alerts = []\<rparr>
          \<lparr>bom = None, materialMaster = None, idp = None, supplierDetails = None,
            weekPlan = None\<rparr>) = [SwalError ''Data Error'' ''BOM data is missing or empty'']"
proof -
  have p: "present (bom \<lparr>bom = None, materialMaster = None, idp = None, supplierDetails = None,
                  weekPlan = None\<rparr>) = None" by (simp add: present_def)
  note t = missing_document_aborts [of "\<lparr>bom = None, materialMaster = None, idp = None,
        supplierDetails = None, weekPlan = None\<rparr>" jsStub
        "\<lparr>mrpCalculatedData = Some [], allWeekColumns = [], weekColumns = [],
            selectedYear = ''2024'', startWeek = 1, endWeek = 20, alerts = []\<rparr>" None,
        THEN conjunct1, THEN mp, OF disjI1, OF p]
  from t p show ?thesis by simp
qed

section \<open>Demand explosion\<close>


lemma sum_list_filter_if:
  "sum_list (map g (map f (filter P xs))) = sum_list (map (\<lambda>x. if P x then g (f x) else (0::rat)) xs)"
  by (induction xs) simp_all



lemma weeksLoop_Nil: "weeksLoop js dm row items [] = dm"
  by (simp add: weeksLoop_def)

lemma weeksLoop_Cons:
  "weeksLoop js dm row items ((idx, wk) # wcs) =
     weeksLoop js (if toNumber js (cellAt row idx) \<le> 0 then dm
                   else itemsLoop dm wk (toNumber js (cellAt row idx)) items) row items wcs"
  by (simp add: weeksLoop_def Let_def)












section \<open>The periods of the output rows\<close>

lemma update_member:
  "(c, v) \<in> set (AList.update k u al) \<Longrightarrow> (c, v) = (k, u) \<or> (c, v) \<in> set al"
  by (induction al) (auto split: if_splits)

lemma weeksWithin_lookup:
  assumes "weeksWithin S dm" and "map_of dm c = Some wm"
  shows "distinct (map fst wm) \<and> set (map fst wm) \<subseteq> S"
proof -
  from assms(2) have "(c, wm) \<in> set dm" by (rule map_of_SomeD)
  with assms(1) have "case (c, wm) of (c, wm) \<Rightarrow> distinct (map fst wm) \<and> set (map fst wm) \<subseteq> S"
    unfolding weeksWithin_def by (rule bspec)
  then show ?thesis by simp
qed

lemma weeksWithin_addDemand:
  assumes "weeksWithin S dm" and "w \<in> S"
  shows "weeksWithin S (addDemand dm c w q)"
proof -
  define wm where "wm = (case map_of dm c of None \<Rightarrow> [] | Some wm \<Rightarrow> wm)"
  have g: "distinct (map fst wm) \<and> set (map fst wm) \<subseteq> S"
  proof (cases "map_of dm c")
    case None
    then show ?thesis by (simp add: wm_def)
  next
    case (Some x)
    from weeksWithin_lookup [OF assms(1) Some] Some show ?thesis by (simp add: wm_def)
  qed
  define nw where "nw = AList.update w ((case map_of wm w of None \<Rightarrow> 0 | Some v \<Rightarrow> v) + q) wm"
  have n: "distinct (map fst nw) \<and> set (map fst nw) \<subseteq> S"
    using g assms(2) by (auto simp: nw_def distinct_update update_keys)
  have a: "addDemand dm c w q = AList.update c nw dm"
    by (simp add: addDemand_def Let_def wm_def nw_def)
  show ?thesis
    unfolding a weeksWithin_def
  proof (intro ballI)
    fix p assume p: "p \<in> set (AList.update c nw dm)"
    obtain c' v where pv: "p = (c', v)" by (cases p)
    from p pv update_member [of c' v c nw dm] have "(c', v) = (c, nw) \<or> (c', v) \<in> set dm" by simp
    then have "distinct (map fst v) \<and> set (map fst v) \<subseteq> S"
    proof
      assume "(c', v) = (c, nw)"
      with n show ?thesis by simp
    next
      assume "(c', v) \<in> set dm"
      with assms(1) have "case (c', v) of (c, wm) \<Rightarrow> distinct (map fst wm) \<and> set (map fst wm) \<subseteq> S"
        unfolding weeksWithin_def by (rule bspec)
      then show ?thesis by simp
    qed
    then show "case p of (c, wm) \<Rightarrow> distinct (map fst wm) \<and> set (map fst wm) \<subseteq> S"
      by (simp add: pv)
  qed
qed

lemma weeksWithin_itemsLoop:
  "weeksWithin S dm \<Longrightarrow> w \<in> S \<Longrightarrow> weeksWithin S (itemsLoop dm w pq items)"
  unfolding itemsLoop_def
  by (induction items arbitrary: dm) (auto simp: weeksWithin_addDemand)

lemma weeksWithin_weeksLoop:
  "weeksWithin S dm \<Longrightarrow> snd ` set wcs \<subseteq> S \<Longrightarrow> weeksWithin S (weeksLoop js dm row items wcs)"
proof (induction wcs arbitrary: dm)
  case Nil
  then show ?case by (simp add: weeksLoop_Nil)
next
  case (Cons p wcs)
  obtain idx wk where p: "p = (idx, wk)" by (cases p)
  from Cons.prems have "wk \<in> S" "snd ` set wcs \<subseteq> S" by (auto simp: p)
  with Cons.prems(1) Cons.IH show ?case
    by (simp add: p weeksLoop_Cons weeksWithin_itemsLoop)
qed

lemma weeksWithin_rows:
  "weeksWithin S dm \<Longrightarrow> snd ` set wcs \<subseteq> S \<Longrightarrow>
     weeksWithin S (foldl (planRowStep js ih lookup wcs) dm rows)"
proof (induction rows arbitrary: dm)
  case Nil
  then show ?case by simp
next
  case (Cons r rows)
  from Cons.prems have "weeksWithin S (planRowStep js ih lookup wcs dm r)"
    by (simp add: planRowStep_def Let_def weeksWithin_weeksLoop)
  with Cons.IH Cons.prems(2) show ?case by simp
qed

lemma weekCols_selected: "snd ` set (weekCols js ih sel) \<subseteq> set sel"
  by (auto simp: weekCols_def Let_def split: if_splits)

lemma weeksWithin_build:
  "weeksWithin (set sel) (buildProductionDemandMap js ih idpRows bh bomRows sel)"
  unfolding buildProductionDemandMap_def
  by (intro weeksWithin_rows weekCols_selected) (simp add: weeksWithin_def)

lemma walkPeriods_weeks:
  "map (\<lambda>s. (psWeek s, psQty s)) (walkPeriods mm r ps) = ps"
  "map psWeek (walkPeriods mm r ps) = map fst ps"
  by (induction ps arbitrary: r) (auto simp: case_prod_beta)

lemma totalDemandOf_all:
  "set (map fst ps) \<subseteq> set sel \<Longrightarrow> totalDemandOf sel ps = sum_list (map snd ps)"
proof -
  have "set (map fst ps) \<subseteq> set sel \<Longrightarrow>
          foldl (\<lambda>t (week, qty). if week \<in> set sel then t + qty else t) a ps
            = a + sum_list (map snd ps)" for a
    by (induction ps arbitrary: a) (auto simp: algebra_simps)
  then show "set (map fst ps) \<subseteq> set sel \<Longrightarrow> totalDemandOf sel ps = sum_list (map snd ps)"
    by (simp add: totalDemandOf_def)
qed

lemma selectedWeek_in_window:
  assumes "w \<in> set (selectedWeeksOf js st (allWeeksOf js ih))"
  shows "periodPattern w \<and> drop 3 w = selectedYear st
         \<and> startWeek st \<le> of_nat (digitsValue (take 2 w))
         \<and> of_nat (digitsValue (take 2 w)) \<le> endWeek st"
proof -
  from assms have pp: "periodPattern w"
    and yr: "nthOpt (split CHR ''.'' w) 1 = Some (selectedYear st)"
    and rg: "weekInRange js (startWeek st) (endWeek st) w"
    by (auto simp: selectedWeeksOf_def allWeeksOf_def Let_def)
  from pp obtain a b d e f g where s: "w = [a, b, CHR ''.'', d, e, f, g]"
    and dg: "isDigit a" "isDigit b" "isDigit d" "isDigit e" "isDigit f" "isDigit g"
    by (rule periodPattern_form)
  have sp: "split CHR ''.'' w = [[a, b], [d, e, f, g]]"
    unfolding s using dg by (rule split_period)
  have nw: "jsNumber js [a, b] = Some (of_nat (digitsValue [a, b]))"
    using dg by (intro jsNumber_digits) simp_all
  have tk: "take 2 w = [a, b]" "drop 3 w = [d, e, f, g]" by (simp_all add: s)
  from yr have "drop 3 w = selectedYear st" unfolding sp tk by (simp add: nthOpt_def)
  moreover from rg have "startWeek st \<le> of_nat (digitsValue (take 2 w))
         \<and> of_nat (digitsValue (take 2 w)) \<le> endWeek st"
    unfolding weekInRange_def sp tk by (simp add: nthOpt_def nw)
  ultimately show ?thesis using pp by simp
qed

lemma mrpRowFor_weeks:
  assumes "weeksWithin (set sel) dm"
  shows "set (map fst (weeklyDemand (mrpRowFor js mmMap sdMap dm sel wp bomRows ci ui mat))) \<subseteq> set sel"
    and "map fst (weeklyMrpQty (mrpRowFor js mmMap sdMap dm sel wp bomRows ci ui mat))
           = map fst (weeklyDemand (mrpRowFor js mmMap sdMap dm sel wp bomRows ci ui mat))"
    and "map fst (weeklyPoDate (mrpRowFor js mmMap sdMap dm sel wp bomRows ci ui mat))
           = map fst (weeklyDemand (mrpRowFor js mmMap sdMap dm sel wp bomRows ci ui mat))"
    and "distinct (map fst (weeklyDemand (mrpRowFor js mmMap sdMap dm sel wp bomRows ci ui mat)))"
    and "totalDemand (mrpRowFor js mmMap sdMap dm sel wp bomRows ci ui mat)
           = sum_list (map snd (weeklyDemand (mrpRowFor js mmMap sdMap dm sel wp bomRows ci ui mat)))"
proof -
  define ps where "ps = (case map_of dm mat of None \<Rightarrow> [] | Some wm \<Rightarrow> wm)"
  have g: "distinct (map fst ps) \<and> set (map fst ps) \<subseteq> set sel"
  proof (cases "map_of dm mat")
    case None
    then show ?thesis by (simp add: ps_def)
  next
    case (Some x)
    from weeksWithin_lookup [OF assms Some] Some show ?thesis by (simp add: ps_def)
  qed
  have wd: "weeklyDemand (mrpRowFor js mmMap sdMap dm sel wp bomRows ci ui mat) = ps"
    by (simp add: mrpRowFor_def Let_def ps_def walkPeriods_weeks)
  have wq: "map fst (weeklyMrpQty (mrpRowFor js mmMap sdMap dm sel wp bomRows ci ui mat)) = map fst ps"
    by (simp add: mrpRowFor_def Let_def ps_def comp_def walkPeriods_weeks)
  have wp: "map fst (weeklyPoDate (mrpRowFor js mmMap sdMap dm sel wp bomRows ci ui mat)) = map fst ps"
    by (simp add: mrpRowFor_def Let_def ps_def comp_def walkPeriods_weeks)
  have td: "totalDemand (mrpRowFor js mmMap sdMap dm sel wp bomRows ci ui mat) = totalDemandOf sel ps"
    by (simp add: mrpRowFor_def Let_def ps_def)
  from g show "set (map fst (weeklyDemand (mrpRowFor js mmMap sdMap dm sel wp bomRows ci ui mat))) \<subseteq> set sel"
    by (simp add: wd)
  show "map fst (weeklyMrpQty (mrpRowFor js mmMap sdMap dm sel wp bomRows ci ui mat))
           = map fst (weeklyDemand (mrpRowFor js mmMap sdMap dm sel wp bomRows ci ui mat))"
    by (simp add: wd wq)
  show "map fst (weeklyPoDate (mrpRowFor js mmMap sdMap dm sel wp bomRows ci ui mat))
           = map fst (weeklyDemand (mrpRowFor js mmMap sdMap dm sel wp bomRows ci ui mat))"
    by (simp add: wd wp)
  from g show "distinct (map fst (weeklyDemand (mrpRowFor js mmMap sdMap dm sel wp bomRows ci ui mat)))"
    by (simp add: wd)
  from g show "totalDemand (mrpRowFor js mmMap sdMap dm sel wp bomRows ci ui mat)
           = sum_list (map snd (weeklyDemand (mrpRowFor js mmMap sdMap dm sel wp bomRows ci ui mat)))"
    by (simp add: wd td totalDemandOf_all)
qed

lemma computeMrp_rows:
  assumes "mrpCalculatedData st = None"
    and "mrpCalculatedData (computeMrp js st b mm i sd wp) = Some rows"
  shows "\<exists>mmMap sdMap bh bomRows ci ui mats.
           rows = map (mrpRowFor js mmMap sdMap
                         (buildProductionDemandMap js (headerOf (jsonData i)) (drop 1 (jsonData i))
                            bh bomRows (selectedWeeksOf js st (allWeeksOf js (headerOf (jsonData i)))))
                         (selectedWeeksOf js st (allWeeksOf js (headerOf (jsonData i))))
                         wp bomRows ci ui) mats
           \<and> weekColumns (computeMrp js st b mm i sd wp)
               = selectedWeeksOf js st (allWeeksOf js (headerOf (jsonData i)))"
proof (cases "findColumnIndex js
               (case nthOpt (jsonData b)
                       (findHeaderRowIndex (jsonData b) (bomHeaderMatchers js) 10) of
                  None \<Rightarrow> [] | Some r \<Rightarrow> r) childPartPredicates = - 1")
  case True
  then have "mrpCalculatedData (computeMrp js st b mm i sd wp) = mrpCalculatedData st"
    by (simp add: computeMrp_def Let_def fire_def)
  with assms show ?thesis by simp
next
  case False
  then have r: "mrpCalculatedData (computeMrp js st b mm i sd wp) =
      Some (map (mrpRowFor js (buildMaterialMasterMap js (headerOf (jsonData mm)) (drop 1 (jsonData mm)))
                   (buildSupplierDetailsMap js (headerOf (jsonData sd)) (drop 1 (jsonData sd)))
                   (buildProductionDemandMap js (headerOf (jsonData i)) (drop 1 (jsonData i))
                      (case nthOpt (jsonData b)
                         (findHeaderRowIndex (jsonData b) (bomHeaderMatchers js) 10) of
                         None \<Rightarrow> [] | Some r \<Rightarrow> r)
                      (drop (nat (findHeaderRowIndex (jsonData b) (bomHeaderMatchers js) 10 + 1))
                         (jsonData b))
                      (selectedWeeksOf js st (allWeeksOf js (headerOf (jsonData i)))))
                   (selectedWeeksOf js st (allWeeksOf js (headerOf (jsonData i))))
                   wp
                   (drop (nat (findHeaderRowIndex (jsonData b) (bomHeaderMatchers js) 10 + 1))
                      (jsonData b))
                   (findColumnIndex js
                      (case nthOpt (jsonData b)
                         (findHeaderRowIndex (jsonData b) (bomHeaderMatchers js) 10) of
                         None \<Rightarrow> [] | Some r \<Rightarrow> r) childPartPredicates)
                   (findColumnIndex js
                      (case nthOpt (jsonData b)
                         (findHeaderRowIndex (jsonData b) (bomHeaderMatchers js) 10) of
                         None \<Rightarrow> [] | Some r \<Rightarrow> r) uomPredicates))
              (uniqueFrom []
                 (filter (\<lambda>s. s \<noteq> [])
                    (map (\<lambda>r. trim (cellString js (cellAt r
                        (findColumnIndex js
                           (case nthOpt (jsonData b)
                              (findHeaderRowIndex (jsonData b) (bomHeaderMatchers js) 10) of
                              None \<Rightarrow> [] | Some r \<Rightarrow> r) childPartPredicates))))
                       (drop (nat (findHeaderRowIndex (jsonData b) (bomHeaderMatchers js) 10 + 1))
                          (jsonData b))))))"
    and w: "weekColumns (computeMrp js st b mm i sd wp)
               = selectedWeeksOf js st (allWeeksOf js (headerOf (jsonData i)))"
    by (simp_all add: computeMrp_def Let_def fire_def)
  from r assms(2) w show ?thesis by (intro exI conjI) (simp, assumption)
qed

lemma example_run:
  "mrpCalculatedData (calculateMrpDataInternal jsStub exampleState exampleInputs) =
     Some [\<lparr>material = ''C'', uom = [], supplierCode = [], rowMpq = 0, rowMoq = 0, rowReorder = 0,
            rowInstock = 100, rowPendingPo = 0, rowExcessQty = 100, leadTime = 0,
            weeklyDemand = [(''01.2024'', 10)], weeklyMrpQty = [(''01.2024'', 0)],
            weeklyPoDate = [(''01.2024'', ''-'')], totalDemand = 10\<rparr>]"
  by code_simp

lemma calculate_rows:
  assumes "mrpCalculatedData st = None"
    and "mrpCalculatedData (calculateMrpDataInternal js st inp) = Some rows"
  shows "\<exists>ih mmMap sdMap idpRows bh bomRows wp ci ui mats.
           rows = map (mrpRowFor js mmMap sdMap
                         (buildProductionDemandMap js ih idpRows bh bomRows
                            (selectedWeeksOf js st (allWeeksOf js ih)))
                         (selectedWeeksOf js st (allWeeksOf js ih)) wp bomRows ci ui) mats
           \<and> weekColumns (calculateMrpDataInternal js st inp)
               = selectedWeeksOf js st (allWeeksOf js ih)"
proof (cases "present (bom inp) = None \<or> present (idp inp) = None
      \<or> present (materialMaster inp) = None \<or> present (supplierDetails inp) = None")
  case True
  then have "\<exists>t. calculateMrpDataInternal js st inp
                 = st\<lparr>alerts := alerts st @ [SwalError ''Data Error'' t]\<rparr>"
    by (auto simp: calculateMrpDataInternal_def fire_def split: option.splits)
  then have "mrpCalculatedData (calculateMrpDataInternal js st inp) = mrpCalculatedData st"
    by auto
  with assms show ?thesis by simp
next
  case False
  then obtain b i mm sd where p: "present (bom inp) = Some b" "present (idp inp) = Some i"
    "present (materialMaster inp) = Some mm" "present (supplierDetails inp) = Some sd"
    by auto
  then have c: "calculateMrpDataInternal js st inp = computeMrp js st b mm i sd (weekPlan inp)"
    by (simp add: calculateMrpDataInternal_def)
  from computeMrp_rows [OF assms(1), of js b mm i sd "weekPlan inp" rows] assms(2)
  show ?thesis unfolding c by blast
qed

text \<open>
  C10. After a run that stored rows (the result state had been cleared before), every
  period key of a row's weeklyDemand, weeklyMrpQty and weeklyPoDate is one of the selected
  weeks that the run stores as week columns: it has the form WW.YYYY, its year is the
  selected year and its week number lies between startWeek and endWeek. The keys of
  weeklyDemand are distinct, and the row's totalDemand is the sum of all values of
  weeklyDemand.
\<close>

theorem output_periods_in_window:
  assumes "mrpCalculatedData st = None"
    and "mrpCalculatedData (calculateMrpDataInternal js st inp) = Some rows"
    and "r \<in> set rows"
  shows "(\<forall>w \<in> set (map fst (weeklyDemand r)) \<union> set (map fst (weeklyMrpQty r))
                 \<union> set (map fst (weeklyPoDate r)).
            w \<in> set (weekColumns (calculateMrpDataInternal js st inp))
            \<and> periodPattern w \<and> drop 3 w = selectedYear st
            \<and> startWeek st \<le> of_nat (digitsValue (take 2 w))
            \<and> of_nat (digitsValue (take 2 w)) \<le> endWeek st)
         \<and> distinct (map fst (weeklyDemand r))
         \<and> totalDemand r = sum_list (map snd (weeklyDemand r))"
proof -
  from calculate_rows [OF assms(1) assms(2)]
  obtain ih mmMap sdMap idpRows bh bomRows wp ci ui mats
    where rows: "rows = map (mrpRowFor js mmMap sdMap
                         (buildProductionDemandMap js ih idpRows bh bomRows
                            (selectedWeeksOf js st (allWeeksOf js ih)))
                         (selectedWeeksOf js st (allWeeksOf js ih)) wp bomRows ci ui) mats"
      and wc: "weekColumns (calculateMrpDataInternal js st inp)
               = selectedWeeksOf js st (allWeeksOf js ih)"
    by blast
  define sel where "sel = selectedWeeksOf js st (allWeeksOf js ih)"
  define dm where "dm = buildProductionDemandMap js ih idpRows bh bomRows sel"
  from assms(3) rows obtain mat
    where r: "r = mrpRowFor js mmMap sdMap dm sel wp bomRows ci ui mat"
    unfolding sel_def dm_def by auto
  have ww: "weeksWithin (set sel) dm" unfolding dm_def by (rule weeksWithin_build)
  note m = mrpRowFor_weeks [OF ww, of js mmMap sdMap wp bomRows ci ui mat, folded r]
  have keys: "w \<in> set sel" if "w \<in> set (map fst (weeklyDemand r)) \<union> set (map fst (weeklyMrpQty r))
                 \<union> set (map fst (weeklyPoDate r))" for w
    using that m(1) unfolding m(2) m(3) by blast
  have win: "periodPattern w \<and> drop 3 w = selectedYear st
            \<and> startWeek st \<le> of_nat (digitsValue (take 2 w))
            \<and> of_nat (digitsValue (take 2 w)) \<le> endWeek st" if "w \<in> set sel" for w
    using that unfolding sel_def by (rule selectedWeek_in_window)
  show ?thesis
  proof (intro conjI ballI)
    fix w assume "w \<in> set (map fst (weeklyDemand r)) \<union> set (map fst (weeklyMrpQty r))
                 \<union> set (map fst (weeklyPoDate r))"
    then have "w \<in> set sel" by (rule keys)
    then show "w \<in> set (weekColumns (calculateMrpDataInternal js st inp))"
      "periodPattern w" "drop 3 w = selectedYear st"
      "startWeek st \<le> of_nat (digitsValue (take 2 w))"
      "of_nat (digitsValue (take 2 w)) \<le> endWeek st"
      using win [of w] by (simp_all add: wc sel_def)
  next
    show "distinct (map fst (weeklyDemand r))" by (rule m(4))
    show "totalDemand r = sum_list (map snd (weeklyDemand r))" by (rule m(5))
  qed
qed

theorem output_periods_in_window_witness:
  "mrpCalculatedData exampleState = None
   \<and> mrpCalculatedData (calculateMrpDataInternal jsStub exampleState exampleInputs) =
       Some [\<lparr>material = ''C'', uom = [], supplierCode = [], rowMpq = 0, rowMoq = 0,
              rowReorder = 0, rowInstock = 100, rowPendingPo = 0, rowExcessQty = 100, leadTime = 0,
              weeklyDemand = [(''01.2024'', 10)], weeklyMrpQty = [(''01.2024'', 0)],
              weeklyPoDate = [(''01.2024'', ''-'')], totalDemand = 10\<rparr>]
   \<and> ''01.2024'' \<in> set (weekColumns (calculateMrpDataInternal jsStub exampleState exampleInputs))
   \<and> periodPattern ''01.2024'' \<and> drop 3 ''01.2024'' = selectedYear exampleState
   \<and> startWeek exampleState \<le> of_nat (digitsValue (take 2 ''01.2024''))
   \<and> of_nat (digitsValue (take 2 ''01.2024'')) \<le> endWeek exampleState"
proof -
  define r where "r = \<lparr>material = ''C'', uom = [], supplierCode = [], rowMpq = 0, rowMoq = 0,
              rowReorder = 0, rowInstock = 100, rowPendingPo = 0, rowExcessQty = 100,
              leadTime = (0::rat),
              weeklyDemand = [(''01.2024'', 10)], weeklyMrpQty = [(''01.2024'', 0)],
              weeklyPoDate = [(''01.2024'', ''-'')], totalDemand = 10\<rparr>"
  have n: "mrpCalculatedData exampleState = None" by (simp add: exampleState_def)
  have run: "mrpCalculatedData (calculateMrpDataInternal jsStub exampleState exampleInputs) = Some [r]"
    unfolding r_def by (rule example_run)
  have mem: "r \<in> set [r]" by simp
  have key: "''01.2024'' \<in> set (map fst (weeklyDemand r)) \<union> set (map fst (weeklyMrpQty r))
                 \<union> set (map fst (weeklyPoDate r))" by (simp add: r_def)
  note t = output_periods_in_window [OF n run mem, THEN conjunct1, THEN bspec, OF key]
  from n example_run t show ?thesis by (intro conjI) (elim conjE, assumption)+
qed


end
